theory Spec2Isabelle
  imports Complex_Main "HOL-Library.Word" "HOL-Library.AList"
begin

section \<open>JavaScript values used by commission.js\<close>

subsection \<open>Strings\<close>

text \<open>
  A JavaScript string is a sequence of UTF-16 code units. The pound sign is the single
  code unit \<open>0xA3\<close>, so \<open>CaseValue.slice(1)\<close> removes exactly one element.
  \<open>js\<close> embeds an ASCII (or Latin-1) literal of the theory.
\<close>

type_synonym jschar = "16 word"
type_synonym jsstring = "jschar list"

definition js :: "string \<Rightarrow> jsstring" where
  "js s = map of_char s"

definition POUND :: jsstring where
  "POUND = [0xA3]"

definition CRLF :: jsstring where
  "CRLF = [0x0D, 0x0A]"

definition startsWith :: "jsstring \<Rightarrow> jsstring \<Rightarrow> bool" where
  "startsWith s p = (take (length p) s = p)"

text \<open>
  \<open>String.prototype.trim\<close> removes WhiteSpace and LineTerminator code points from both
  ends; \<open>parseFloat\<close>, \<open>parseInt\<close> and the string-to-number conversion skip the same set.
\<close>

definition isWhiteSpace :: "jschar \<Rightarrow> bool" where
  "isWhiteSpace c =
     (c \<in> {0x09, 0x0A, 0x0B, 0x0C, 0x0D, 0x20, 0xA0, 0x1680, 0x2028, 0x2029, 0x202F, 0x205F,
            0x3000, 0xFEFF}
      \<or> (0x2000 \<le> c \<and> c \<le> 0x200A))"

definition trimStart :: "jsstring \<Rightarrow> jsstring" where
  "trimStart s = dropWhile isWhiteSpace s"

definition trimEnd :: "jsstring \<Rightarrow> jsstring" where
  "trimEnd s = rev (dropWhile isWhiteSpace (rev s))"

definition trim :: "jsstring \<Rightarrow> jsstring" where
  "trim s = trimEnd (trimStart s)"

text \<open>
  \<open>S.split(sep)\<close> with a string separator scans \<open>S\<close> from the left; at every position
  where \<open>sep\<close> matches, the text collected so far becomes an element and the scan resumes
  after the match. The empty separator splits into single code units.
\<close>

function split_from :: "'a list \<Rightarrow> 'a list \<Rightarrow> 'a list \<Rightarrow> 'a list list" where
  "split_from sep cur [] = [cur]"
| "split_from sep cur (c # cs) =
     (if sep \<noteq> [] \<and> take (length sep) (c # cs) = sep
      then cur # split_from sep [] (drop (length sep) (c # cs))
      else split_from sep (cur @ [c]) cs)"
  by pat_completeness auto
termination
  by (relation "measure (\<lambda>(sep, cur, s). length s)") (auto simp: neq_Nil_conv)

definition split_str :: "'a list \<Rightarrow> 'a list \<Rightarrow> 'a list list" where
  "split_str sep s = (if sep = [] then map (\<lambda>c. [c]) s else split_from sep [] s)"

fun join_str :: "'a list \<Rightarrow> 'a list list \<Rightarrow> 'a list" where
  "join_str sep [] = []"
| "join_str sep [x] = x"
| "join_str sep (x # y # ys) = x @ sep @ join_str sep (y # ys)"

subsection \<open>Numbers\<close>

text \<open>
  A Number is an IEEE 754 binary64 value: NaN, the two infinities, the two zeros, and the
  non-zero finite doubles, each of which is a rational. \<open>Num 0\<close> is \<open>+0\<close>.
  Every arithmetic result is the exact rational result rounded to the nearest double, ties
  to even (\<open>toDouble\<close>).
\<close>

datatype number = NaN | PosInf | NegInf | NegZero | Num rat

text \<open>\<open>ndigits b n\<close> is the number of base-\<open>b\<close> digits of \<open>n\<close> (0 for \<open>n \<le> 0\<close>).\<close>

function ndigits :: "int \<Rightarrow> int \<Rightarrow> int" where
  "ndigits b n = (if n \<le> 0 \<or> b < 2 then 0 else 1 + ndigits b (n div b))"
  by pat_completeness auto
termination
  by (relation "measure (\<lambda>(b, n). nat n)") (auto intro!: int_div_less_self)

text \<open>\<open>ilog b x\<close> is \<open>\<lfloor>log\<^sub>b x\<rfloor>\<close> for a rational \<open>x > 0\<close>.\<close>

definition ilog :: "int \<Rightarrow> rat \<Rightarrow> int" where
  "ilog b x = (if 1 \<le> x then ndigits b \<lfloor>x\<rfloor> - 1 else - ndigits b (\<lceil>1 / x\<rceil> - 1))"

definition roundHalfEven :: "rat \<Rightarrow> int" where
  "roundHalfEven q =
     (let n = \<lfloor>q\<rfloor>; d = q - of_int n
      in if d < 1 / 2 then n else if 1 / 2 < d then n + 1 else if even n then n else n + 1)"

text \<open>
  Rounding a magnitude \<open>x > 0\<close> to 53 significant bits, with the exponent clamped at the
  subnormal range. The result is 0 on underflow and \<open>2 ^ 1024\<close> on overflow.
\<close>

definition roundMagnitude :: "rat \<Rightarrow> rat" where
  "roundMagnitude x =
     (let e = max (ilog 2 x) (- 1022); ulp = 2 powi (e - 52)
      in of_int (roundHalfEven (x / ulp)) * ulp)"

definition signedZero :: "bool \<Rightarrow> number" where
  "signedZero neg = (if neg then NegZero else Num 0)"

definition signedInfinity :: "bool \<Rightarrow> number" where
  "signedInfinity neg = (if neg then NegInf else PosInf)"

text \<open>
  The Number value for the real \<open>x\<close>; \<open>neg\<close> is the sign of the zero returned when
  \<open>x\<close> is exactly 0.
\<close>

definition toDouble :: "bool \<Rightarrow> rat \<Rightarrow> number" where
  "toDouble neg x =
     (if x = 0 then signedZero neg
      else let r = roundMagnitude \<bar>x\<bar>
           in if r = 0 then signedZero (x < 0)
              else if 2 ^ 1024 \<le> r then signedInfinity (x < 0)
              else Num (if x < 0 then - r else r))"

definition isInfinite :: "number \<Rightarrow> bool" where
  "isInfinite x = (x = PosInf \<or> x = NegInf)"

definition isZero :: "number \<Rightarrow> bool" where
  "isZero x = (x = NegZero \<or> x = Num 0)"

definition isNegative :: "number \<Rightarrow> bool" where
  "isNegative x =
     (case x of NegInf \<Rightarrow> True | NegZero \<Rightarrow> True | Num r \<Rightarrow> r < 0 | _ \<Rightarrow> False)"

definition mathValue :: "number \<Rightarrow> rat" where
  "mathValue x = (case x of Num r \<Rightarrow> r | _ \<Rightarrow> 0)"

definition number_unaryMinus :: "number \<Rightarrow> number" where
  "number_unaryMinus x =
     (case x of NaN \<Rightarrow> NaN | PosInf \<Rightarrow> NegInf | NegInf \<Rightarrow> PosInf | NegZero \<Rightarrow> Num 0
      | Num r \<Rightarrow> if r = 0 then NegZero else Num (- r))"

definition number_multiply :: "number \<Rightarrow> number \<Rightarrow> number" where
  "number_multiply x y =
     (if x = NaN \<or> y = NaN then NaN
      else if isInfinite x \<or> isInfinite y
        then (if isZero x \<or> isZero y then NaN
              else signedInfinity (isNegative x \<noteq> isNegative y))
      else toDouble (isNegative x \<noteq> isNegative y) (mathValue x * mathValue y))"

definition number_divide :: "number \<Rightarrow> number \<Rightarrow> number" where
  "number_divide x y =
     (if x = NaN \<or> y = NaN then NaN
      else if isInfinite x
        then (if isInfinite y then NaN else signedInfinity (isNegative x \<noteq> isNegative y))
      else if isInfinite y then signedZero (isNegative x \<noteq> isNegative y)
      else if isZero y
        then (if isZero x then NaN else signedInfinity (isNegative x \<noteq> isNegative y))
      else toDouble (isNegative x \<noteq> isNegative y) (mathValue x / mathValue y))"

definition number_add :: "number \<Rightarrow> number \<Rightarrow> number" where
  "number_add x y =
     (if x = NaN \<or> y = NaN then NaN
      else if isInfinite x then (if isInfinite y \<and> x \<noteq> y then NaN else x)
      else if isInfinite y then y
      else toDouble (isNegative x \<and> isNegative y) (mathValue x + mathValue y))"

definition number_subtract :: "number \<Rightarrow> number \<Rightarrow> number" where
  "number_subtract x y = number_add x (number_unaryMinus y)"

text \<open>\<open>x < y\<close> on Numbers; a comparison with NaN is false, and \<open>-0 < +0\<close> is false.\<close>

definition number_lessThan :: "number \<Rightarrow> number \<Rightarrow> bool" where
  "number_lessThan x y =
     (x \<noteq> NaN \<and> y \<noteq> NaN \<and> x \<noteq> PosInf \<and> y \<noteq> NegInf \<and>
      (x = NegInf \<or> y = PosInf \<or> mathValue x < mathValue y))"

subsection \<open>Numeric literals in strings\<close>

definition isDigit :: "jschar \<Rightarrow> bool" where
  "isDigit c = (0x30 \<le> c \<and> c \<le> 0x39)"

text \<open>The value of a digit or letter as a digit of some radix; 36 for any other code unit.\<close>

definition radixDigit :: "jschar \<Rightarrow> int" where
  "radixDigit c =
     (if 0x30 \<le> c \<and> c \<le> 0x39 then uint c - 0x30
      else if 0x61 \<le> c \<and> c \<le> 0x7A then uint c - 0x61 + 10
      else if 0x41 \<le> c \<and> c \<le> 0x5A then uint c - 0x41 + 10
      else 36)"

definition isRadixDigit :: "int \<Rightarrow> jschar \<Rightarrow> bool" where
  "isRadixDigit R c = (radixDigit c < R)"

definition radixValue :: "int \<Rightarrow> jsstring \<Rightarrow> int" where
  "radixValue R ds = foldl (\<lambda>a c. R * a + radixDigit c) 0 ds"

text \<open>
  The grammar of \<open>StrDecimalLiteral\<close>, read greedily: each function returns what it parsed
  and the rest of the string. \<open>ExponentPart\<close> is optional; an incomplete one
  (\<open>1e\<close>, \<open>1e+\<close>) is not consumed.
\<close>

definition ExponentPart :: "jsstring \<Rightarrow> int \<times> jsstring" where
  "ExponentPart s =
     (if startsWith s (js ''e'') \<or> startsWith s (js ''E'')
      then let t = drop 1 s;
               neg = startsWith t (js ''-'');
               u = (if startsWith t (js ''+'') \<or> neg then drop 1 t else t);
               ds = takeWhile isDigit u
           in if ds = [] then (0, s)
              else (if neg then - radixValue 10 ds else radixValue 10 ds, dropWhile isDigit u)
      else (0, s))"

text \<open>The mathematical value is \<open>None\<close> for \<open>Infinity\<close>.\<close>

definition StrUnsignedDecimalLiteral :: "jsstring \<Rightarrow> (rat option \<times> jsstring) option" where
  "StrUnsignedDecimalLiteral s =
     (if startsWith s (js ''Infinity'') then Some (None, drop 8 s)
      else let ip = takeWhile isDigit s;
               r1 = dropWhile isDigit s;
               dot = startsWith r1 (js ''.'');
               fp = (if dot then takeWhile isDigit (drop 1 r1) else []);
               r2 = (if dot then dropWhile isDigit (drop 1 r1) else r1)
           in if ip = [] \<and> fp = [] then None
              else let (e, r3) = ExponentPart r2
                   in Some (Some ((of_int (radixValue 10 ip)
                                    + of_int (radixValue 10 fp) / 10 ^ length fp) * 10 powi e),
                            r3))"

definition StrDecimalLiteral :: "jsstring \<Rightarrow> ((bool \<times> rat option) \<times> jsstring) option" where
  "StrDecimalLiteral s =
     (let neg = startsWith s (js ''-'');
          t = (if startsWith s (js ''+'') \<or> neg then drop 1 s else s)
      in map_option (\<lambda>(v, r). ((neg, v), r)) (StrUnsignedDecimalLiteral t))"

definition literalValue :: "bool \<times> rat option \<Rightarrow> number" where
  "literalValue l =
     (case l of (neg, None) \<Rightarrow> signedInfinity neg
      | (neg, Some v) \<Rightarrow> toDouble neg (if neg then - v else v))"

text \<open>\<open>parseFloat(string)\<close>: the longest prefix of the trimmed string that is a decimal literal.\<close>

definition parseFloat :: "jsstring \<Rightarrow> number" where
  "parseFloat s =
     (case StrDecimalLiteral (trimStart s) of None \<Rightarrow> NaN | Some (l, r) \<Rightarrow> literalValue l)"

definition NonDecimalIntegerLiteral :: "jsstring \<Rightarrow> number option" where
  "NonDecimalIntegerLiteral t =
     (let R = (if startsWith t (js ''0x'') \<or> startsWith t (js ''0X'') then 16
               else if startsWith t (js ''0o'') \<or> startsWith t (js ''0O'') then 8
               else if startsWith t (js ''0b'') \<or> startsWith t (js ''0B'') then 2
               else 0);
          ds = drop 2 t
      in if R \<noteq> 0 \<and> ds \<noteq> [] \<and> list_all (isRadixDigit R) ds
         then Some (toDouble False (of_int (radixValue R ds))) else None)"

text \<open>
  The conversion a string operand of \<open>*\<close> undergoes: the whole trimmed string must be a
  numeric literal; the empty string is \<open>+0\<close>.
\<close>

definition StringToNumber :: "jsstring \<Rightarrow> number" where
  "StringToNumber s =
     (let t = trim s
      in if t = [] then Num 0
         else case NonDecimalIntegerLiteral t of
                Some v \<Rightarrow> v
              | None \<Rightarrow> (case StrDecimalLiteral t of
                           Some (l, []) \<Rightarrow> literalValue l
                         | _ \<Rightarrow> NaN))"

text \<open>\<open>parseInt(string)\<close> with no radix argument.\<close>

definition parseInt :: "jsstring \<Rightarrow> number" where
  "parseInt s =
     (let S = trimStart s;
          neg = startsWith S (js ''-'');
          S1 = (if startsWith S (js ''+'') \<or> neg then drop 1 S else S);
          hex = (startsWith S1 (js ''0x'') \<or> startsWith S1 (js ''0X''));
          R = (if hex then 16 else 10);
          S2 = (if hex then drop 2 S1 else S1);
          Z = takeWhile (isRadixDigit R) S2
      in if Z = [] then NaN
         else toDouble neg (of_int ((if neg then - 1 else 1) * radixValue R Z)))"

subsection \<open>Numbers to strings\<close>

function digitsOf :: "int \<Rightarrow> jsstring" where
  "digitsOf n =
     (if n < 10 then [of_int (0x30 + n)]
      else digitsOf (n div 10) @ [of_int (0x30 + n mod 10)])"
  by pat_completeness auto
termination
  by (relation "measure nat") auto

text \<open>
  \<open>Number::toString\<close> takes the shortest digit string \<open>s\<close> (of \<open>k\<close> digits) and the
  exponent \<open>n\<close> for which \<open>s \<times> 10\<^bsup>n - k\<^esup>\<close> rounds to the number. For a given
  \<open>k\<close> only the two integers around \<open>x / 10\<^bsup>n - k\<^esup>\<close> can qualify; of two that
  do, the closer one is taken.
\<close>

definition digitCandidate :: "rat \<Rightarrow> int \<Rightarrow> int \<Rightarrow> int option" where
  "digitCandidate x n k =
     (let u = 10 powi (n - k);
          lo = \<lfloor>x / u\<rfloor>;
          hi = lo + 1;
          okLo = (roundMagnitude (of_int lo * u) = x);
          okHi = (roundMagnitude (of_int hi * u) = x)
      in if okLo \<and> okHi
         then Some (if x - of_int lo * u < of_int hi * u - x then lo
                    else if of_int hi * u - x < x - of_int lo * u then hi
                    else if even lo then lo else hi)
         else if okLo then Some lo
         else if okHi then Some hi
         else None)"

function shortestDigits :: "rat \<Rightarrow> int \<Rightarrow> nat \<Rightarrow> int \<times> int" where
  "shortestDigits x n k =
     (case digitCandidate x n (int k) of
        Some s \<Rightarrow> if s = 10 ^ k then (10 ^ (k - 1), n + 1) else (s, n)
      | None \<Rightarrow> if k < 17 then shortestDigits x n (Suc k)
                else (\<lfloor>x / 10 powi (n - 17)\<rfloor>, n))"
  by pat_completeness auto
termination
  by (relation "measure (\<lambda>(x, n, k). 17 - k)") auto

definition positiveToString :: "rat \<Rightarrow> jsstring" where
  "positiveToString x =
     (let (s, n) = shortestDigits x (ilog 10 x + 1) 1;
          ds = digitsOf s;
          k = int (length ds)
      in if k \<le> n \<and> n \<le> 21 then ds @ replicate (nat (n - k)) 0x30
         else if 0 < n \<and> n \<le> 21 then take (nat n) ds @ js ''.'' @ drop (nat n) ds
         else if - 6 < n \<and> n \<le> 0 then js ''0.'' @ replicate (nat (- n)) 0x30 @ ds
         else let e = n - 1;
                  es = (if e < 0 then js ''-'' else js ''+'') @ digitsOf \<bar>e\<bar>
              in if k = 1 then ds @ js ''e'' @ es
                 else take 1 ds @ js ''.'' @ drop 1 ds @ js ''e'' @ es)"

definition number_toString :: "number \<Rightarrow> jsstring" where
  "number_toString x =
     (case x of
        NaN \<Rightarrow> js ''NaN''
      | PosInf \<Rightarrow> js ''Infinity''
      | NegInf \<Rightarrow> js ''-Infinity''
      | NegZero \<Rightarrow> js ''0''
      | Num r \<Rightarrow> if r = 0 then js ''0''
                 else if r < 0 then js ''-'' @ positiveToString (- r)
                 else positiveToString r)"

text \<open>\<open>Number.prototype.toFixed(f)\<close> for \<open>0 \<le> f \<le> 100\<close> (the source passes 2).\<close>

definition toFixed :: "nat \<Rightarrow> number \<Rightarrow> jsstring" where
  "toFixed f x =
     (if x = NaN \<or> isInfinite x then number_toString x
      else let r = mathValue x;
               s = (if r < 0 then js ''-'' else []);
               a = \<bar>r\<bar>
           in if 10 ^ 21 \<le> a then s @ number_toString (Num a)
              else let n = \<lfloor>a * 10 ^ f + 1 / 2\<rfloor>;
                       m = digitsOf n;
                       z = (if length m \<le> f then replicate (f + 1 - length m) 0x30 @ m else m)
                   in if f = 0 then s @ m
                      else s @ take (length z - f) z @ js ''.'' @ drop (length z - f) z)"

section \<open>commission.js\<close>

subsection \<open>Data\<close>

text \<open>
  A CSV row is an array of strings. Reading an array past its end gives \<open>undefined\<close>,
  and calling a string method on \<open>undefined\<close> throws a TypeError; both are part of the
  model. The file system holds, for every file name that can be read, the decoded text of
  the file, and says which file names can be written: \<open>readFileSync\<close> throws on a name
  that cannot be read (a missing file, a directory, no permission), \<open>writeFileSync\<close>
  throws on a name that cannot be written (a missing directory, no permission) and
  otherwise replaces the text of the file. No other exception is modelled.
\<close>

datatype error = TypeError | IOError

datatype jsval = Undefined | Str jsstring

type_synonym row = "jsval list"

definition element :: "row \<Rightarrow> nat \<Rightarrow> jsval" where
  "element r i = (if i < length r then r ! i else Undefined)"

text \<open>\<open>Array.prototype.join\<close> writes \<open>undefined\<close> elements as the empty string.\<close>

definition elementString :: "jsval \<Rightarrow> jsstring" where
  "elementString v = (case v of Undefined \<Rightarrow> [] | Str s \<Rightarrow> s)"

definition array_join :: "jsstring \<Rightarrow> row \<Rightarrow> jsstring" where
  "array_join sep r = join_str sep (map elementString r)"

text \<open>The string a value becomes as a property key or inside a template literal.\<close>

definition toPropertyKey :: "jsval \<Rightarrow> jsstring" where
  "toPropertyKey v = (case v of Undefined \<Rightarrow> js ''undefined'' | Str s \<Rightarrow> s)"

definition templateNumber :: "number option \<Rightarrow> jsstring" where
  "templateNumber v = (case v of None \<Rightarrow> js ''undefined'' | Some n \<Rightarrow> number_toString n)"

text \<open>The numeric value of an operand that is a Number or \<open>undefined\<close>.\<close>

definition toNumber :: "number option \<Rightarrow> number" where
  "toNumber v = (case v of None \<Rightarrow> NaN | Some n \<Rightarrow> n)"

definition truthy :: "number option \<Rightarrow> bool" where
  "truthy v = (case v of None \<Rightarrow> False | Some n \<Rightarrow> n \<noteq> NaN \<and> \<not> isZero n)"

text \<open>\<open>array.map(f)\<close> and a \<open>forEach\<close> that updates a variable, with a callback that may throw.\<close>

fun mapE :: "('a \<Rightarrow> error + 'b) \<Rightarrow> 'a list \<Rightarrow> error + 'b list" where
  "mapE f [] = Inr []"
| "mapE f (x # xs) =
     (case f x of
        Inl e \<Rightarrow> Inl e
      | Inr y \<Rightarrow> (case mapE f xs of Inl e \<Rightarrow> Inl e | Inr ys \<Rightarrow> Inr (y # ys)))"

fun forEachE :: "('s \<Rightarrow> 'a \<Rightarrow> error + 's) \<Rightarrow> 's \<Rightarrow> 'a list \<Rightarrow> error + 's" where
  "forEachE f s [] = Inr s"
| "forEachE f s (x # xs) = (case f s x of Inl e \<Rightarrow> Inl e | Inr s' \<Rightarrow> forEachE f s' xs)"

text \<open>
  A plain object \<open>{}\<close> holding Number properties: its own properties in creation order.
  Assigning to an existing key keeps its position. Assigning a Number to \<open>__proto__\<close>
  runs the inherited setter, which ignores a value that is not an object, so no own
  property is created. \<open>Object.keys\<close> lists array-index keys first, in ascending numeric
  order, and then the other keys in creation order. The call \<open>obj.hasOwnProperty(k)\<close>
  looks the method up on the object itself first: once a Number has been stored under the
  key \<open>hasOwnProperty\<close>, it shadows the inherited method and the call throws a TypeError.
\<close>

type_synonym object = "(jsstring \<times> number) list"

definition hasOwnProperty :: "object \<Rightarrow> jsstring \<Rightarrow> bool" where
  "hasOwnProperty obj k = (map_of obj k \<noteq> None)"

definition callHasOwnProperty :: "object \<Rightarrow> jsstring \<Rightarrow> error + bool" where
  "callHasOwnProperty obj k =
     (if map_of obj (js ''hasOwnProperty'') \<noteq> None then Inl TypeError
      else Inr (hasOwnProperty obj k))"

definition getProperty :: "object \<Rightarrow> jsstring \<Rightarrow> number option" where
  "getProperty obj k = map_of obj k"

definition setProperty :: "object \<Rightarrow> jsstring \<Rightarrow> number \<Rightarrow> object" where
  "setProperty obj k v = (if k = js ''__proto__'' then obj else AList.update k v obj)"

definition isArrayIndex :: "jsstring \<Rightarrow> bool" where
  "isArrayIndex k =
     (k \<noteq> [] \<and> list_all isDigit k \<and> (length k = 1 \<or> hd k \<noteq> 0x30)
      \<and> radixValue 10 k \<le> 4294967294)"

definition ownKeys :: "object \<Rightarrow> jsstring list" where
  "ownKeys obj =
     sort_key (radixValue 10) (filter isArrayIndex (map fst obj))
     @ filter (\<lambda>k. \<not> isArrayIndex k) (map fst obj)"

datatype filesystem =
  Filesystem (files: "jsstring \<rightharpoonup> jsstring") (writable: "jsstring \<Rightarrow> bool")

definition readFileSync :: "filesystem \<Rightarrow> jsstring \<Rightarrow> error + jsstring" where
  "readFileSync fs name =
     (case files fs name of None \<Rightarrow> Inl IOError | Some text \<Rightarrow> Inr text)"

definition writeFileSync :: "filesystem \<Rightarrow> jsstring \<Rightarrow> jsstring \<Rightarrow> error + filesystem" where
  "writeFileSync fs name data =
     (if writable fs name then Inr (Filesystem ((files fs)(name \<mapsto> data)) (writable fs))
      else Inl IOError)"

subsection \<open>Constants\<close>

definition BASE_COMMISSION :: number where
  "BASE_COMMISSION = Num 125"

definition BONUS_AMOUNT :: number where
  "BONUS_AMOUNT = Num 10"

definition BONUS_TYPE_1 :: number where
  "BONUS_TYPE_1 = Num 1"

definition BONUS_TYPE_2 :: number where
  "BONUS_TYPE_2 = Num 2"

definition THRESHOLD_AMOUNT_1 :: number where
  "THRESHOLD_AMOUNT_1 = Num 100000"

definition THRESHOLD_AMOUNT_2 :: number where
  "THRESHOLD_AMOUNT_2 = Num 250000"

definition TARGET_AMOUNT_1 :: number where
  "TARGET_AMOUNT_1 = Num 10000"

definition TARGET_AMOUNT_2 :: number where
  "TARGET_AMOUNT_2 = Num 50000"

text \<open>
  \<open>{ $: 0.8 }\<close>: the literal \<open>0.8\<close> is the double nearest to \<open>8/10\<close>. The lookup is only
  ever read at keys of at most one code unit, where \<open>Object.prototype\<close> has no property.
\<close>

definition CURRENCY_LOOKUP :: "jsstring \<rightharpoonup> number" where
  "CURRENCY_LOOKUP = [js ''$'' \<mapsto> toDouble False (8 / 10)]"

subsection \<open>Functions\<close>

definition convertCSVStrToArr :: "jsstring \<Rightarrow> row list" where
  "convertCSVStrToArr csvStr =
     (let lines = split_str CRLF csvStr
      in map (\<lambda>line. map Str (split_str (js '','') line)) lines)"

definition convertArrayToCSVStr :: "row list \<Rightarrow> jsstring" where
  "convertArrayToCSVStr dataArr =
     foldl (\<lambda>csvStr (index, csvLine).
              csvStr @ array_join (js '','') csvLine
                @ (if int index \<noteq> int (length dataArr) - 1 then CRLF else []))
       [] (zip [0..<length dataArr] dataArr)"

text \<open>The callback of \<open>map\<close> in \<open>convertCasesToGBP\<close>.\<close>

definition convertCase :: "(jsstring \<rightharpoonup> number) \<Rightarrow> row \<Rightarrow> error + row" where
  "convertCase conversionLookup acase =
     (let BrokerName = element acase 0; CaseId = element acase 1
      in case element acase 2 of
           Undefined \<Rightarrow> Inl TypeError
         | Str CaseValue \<Rightarrow>
             if startsWith CaseValue POUND then Inr acase
             else let conversionRate = conversionLookup (take 1 CaseValue);
                      gbpVal = toFixed 2 (parseFloat (number_toString
                                 (number_multiply (StringToNumber (drop 1 CaseValue))
                                                  (toNumber conversionRate))))
                  in Inr [BrokerName, CaseId, Str (POUND @ gbpVal)])"

text \<open>
  The result starts with \<open>brokerCases[0]\<close>, which is \<open>undefined\<close> (\<open>None\<close>) for an empty
  input array.
\<close>

definition convertCasesToGBP ::
  "row list \<Rightarrow> (jsstring \<rightharpoonup> number) \<Rightarrow> error + row option list" where
  "convertCasesToGBP brokerCases conversionLookup =
     (let header = (case brokerCases of [] \<Rightarrow> None | h # rest \<Rightarrow> Some h)
      in case mapE (convertCase conversionLookup) (drop 1 brokerCases) of
           Inl e \<Rightarrow> Inl e
         | Inr converted \<Rightarrow> Inr (header # map Some converted))"

definition bonusCalculator :: "jsval \<Rightarrow> number \<Rightarrow> number \<Rightarrow> error + number" where
  "bonusCalculator caseValue threshold target =
     (case caseValue of
        Undefined \<Rightarrow> Inl TypeError
      | Str v \<Rightarrow>
          let caseValueAsFloat = parseFloat (drop 1 v);
              totalBonus = Num 0
          in if number_lessThan threshold caseValueAsFloat
             then Inr (number_multiply
                         (parseInt (number_toString
                            (number_divide (number_subtract caseValueAsFloat threshold) target)))
                         BONUS_AMOUNT)
             else Inr totalBonus)"

text \<open>
  The callback of \<open>map\<close> in \<open>getCommissionData\<close>. \<open>bonusCalculation\<close> is a Number, or
  \<open>None\<close> when the argument is left out.
\<close>

definition commissionRow :: "number option \<Rightarrow> row option \<Rightarrow> error + row" where
  "commissionRow bonusCalculation brokerCase =
     (case brokerCase of
        None \<Rightarrow> Inl TypeError
      | Some r \<Rightarrow>
          let BrokerName = element r 0; CaseId = element r 1; CaseValue = element r 2;
              commissionObj = [BrokerName, CaseId, Str (POUND @ number_toString BASE_COMMISSION)]
          in if truthy bonusCalculation
             then (case bonusCalculator CaseValue THRESHOLD_AMOUNT_1 TARGET_AMOUNT_1 of
                     Inl e \<Rightarrow> Inl e
                   | Inr bonus \<Rightarrow>
                       if bonusCalculation = Some BONUS_TYPE_2
                       then (case bonusCalculator CaseValue THRESHOLD_AMOUNT_2 TARGET_AMOUNT_2 of
                               Inl e \<Rightarrow> Inl e
                             | Inr bonus2 \<Rightarrow>
                                 Inr (commissionObj
                                       @ [Str (POUND @ number_toString (number_add bonus bonus2))]))
                       else Inr (commissionObj @ [Str (POUND @ number_toString bonus)]))
             else Inr commissionObj)"

definition getCommissionData :: "row list \<Rightarrow> number option \<Rightarrow> error + row list" where
  "getCommissionData brokerCases bonusCalculation =
     (case convertCasesToGBP brokerCases CURRENCY_LOOKUP of
        Inl e \<Rightarrow> Inl e
      | Inr gBPBrokerCases \<Rightarrow>
          (case mapE (commissionRow bonusCalculation) (drop 1 gBPBrokerCases) of
             Inl e \<Rightarrow> Inl e
           | Inr commisionArr \<Rightarrow>
               let header = map Str [js ''BrokerName'', js ''CaseId'', js ''BaseCommission'',
                                     js ''BonusCommission'']
               in Inr (header # commisionArr)))"

text \<open>
  The callback of \<open>forEach\<close> in \<open>getCommissionSummaryData\<close>, as a step on \<open>summaryObj\<close>.
  \<open>hasOwnProperty([BrokerName])\<close> converts the one-element array to its key.
\<close>

definition summaryStep :: "object \<Rightarrow> row \<Rightarrow> error + object" where
  "summaryStep summaryObj brokerCase =
     (let BrokerName = element brokerCase 0;
          BaseCommission = element brokerCase 2;
          BonusCommission = element brokerCase 3
      in case callHasOwnProperty summaryObj (array_join (js '','') [BrokerName]) of
           Inl e \<Rightarrow> Inl e
         | Inr has \<Rightarrow>
             (let currentTotal = (if has then getProperty summaryObj (toPropertyKey BrokerName)
                                  else Some (Num 0))
              in (case BaseCommission of
                    Undefined \<Rightarrow> Inl TypeError
                  | Str base \<Rightarrow>
                      (case BonusCommission of
                         Undefined \<Rightarrow> Inl TypeError
                       | Str bonus \<Rightarrow>
                           Inr (setProperty summaryObj (toPropertyKey BrokerName)
                                  (number_add
                                     (number_add (toNumber currentTotal)
                                        (parseFloat (drop 1 base)))
                                     (parseFloat (drop 1 bonus))))))))"

definition getCommissionSummaryData :: "row list \<Rightarrow> error + row list" where
  "getCommissionSummaryData brokerCases =
     (case forEachE summaryStep [] (drop 1 brokerCases) of
        Inl e \<Rightarrow> Inl e
      | Inr summaryObj \<Rightarrow>
          Inr (map Str [js ''BrokerName'', js ''TotalCommission'']
               # map (\<lambda>key. [Str key, Str (POUND @ templateNumber (getProperty summaryObj key))])
                   (ownKeys summaryObj)))"

definition getCaseCommissionData ::
  "jsstring \<Rightarrow> (row list \<Rightarrow> error + row list) \<Rightarrow> error + jsstring" where
  "getCaseCommissionData csvStr dataGenerator =
     (let csvArr = convertCSVStrToArr csvStr
      in case dataGenerator csvArr of
           Inl e \<Rightarrow> Inl e
         | Inr commissionData \<Rightarrow> Inr (convertArrayToCSVStr commissionData))"

definition createCommissionCSV ::
  "filesystem \<Rightarrow> jsstring \<Rightarrow> jsstring \<Rightarrow> (row list \<Rightarrow> error + row list)
     \<Rightarrow> error + filesystem" where
  "createCommissionCSV fs inputFileName outputFileName dataGenerator =
     (case readFileSync fs inputFileName of
        Inl e \<Rightarrow> Inl e
      | Inr text \<Rightarrow>
          (case getCaseCommissionData (trim text) dataGenerator of
             Inl e \<Rightarrow> Inl e
           | Inr csvStr \<Rightarrow> writeFileSync fs outputFileName csvStr))"

subsection \<open>The summary in the words of the specification\<close>

text \<open>
  The specification describes the summary by three notions that the code does not name:
  the broker names in first-seen order, the running total of a broker over the report
  rows (in the arithmetic of the code, adding BaseCommission and then BonusCommission of
  each of the broker's rows), and a row of a 4-column report (whose broker is not called
  \<open>__proto__\<close> or \<open>hasOwnProperty\<close>, the two names the accumulator object cannot hold
  as ordinary keys). They are used to state the claim about \<open>getCommissionSummaryData\<close>,
  not to define it.
\<close>

primrec brokersFirstSeen :: "'a list \<Rightarrow> 'a list" where
  "brokersFirstSeen [] = []"
| "brokersFirstSeen (x # xs) = x # filter (\<lambda>y. y \<noteq> x) (brokersFirstSeen xs)"

definition brokerName :: "row \<Rightarrow> jsstring" where
  "brokerName r = elementString (element r 0)"

definition brokerTotal :: "jsstring \<Rightarrow> row list \<Rightarrow> number" where
  "brokerTotal b rows =
     foldl (\<lambda>total r. number_add
                        (number_add total (parseFloat (drop 1 (elementString (element r 2)))))
                        (parseFloat (drop 1 (elementString (element r 3)))))
       (Num 0) (filter (\<lambda>r. brokerName r = b) rows)"

definition reportRow :: "row \<Rightarrow> bool" where
  "reportRow r =
     (case (element r 0, element r 2, element r 3) of
        (Str b, Str base, Str bonus) \<Rightarrow> b \<noteq> js ''__proto__'' \<and> b \<noteq> js ''hasOwnProperty''
      | _ \<Rightarrow> False)"

text \<open>
  For a report whose amounts are whole and not negative (as the per-case report writes
  them), the specification's sum is a sum of integers: \<open>rowCommission\<close> is
  BaseCommission plus BonusCommission of a row.
\<close>

definition wholeAmount :: "jsval \<Rightarrow> bool" where
  "wholeAmount v =
     (case parseFloat (drop 1 (elementString v)) of
        Num q \<Rightarrow> 0 \<le> q \<and> of_int \<lfloor>q\<rfloor> = q
      | _ \<Rightarrow> False)"

definition amountOf :: "jsval \<Rightarrow> int" where
  "amountOf v = \<lfloor>mathValue (parseFloat (drop 1 (elementString v)))\<rfloor>"

definition rowCommission :: "row \<Rightarrow> int" where
  "rowCommission r = amountOf (element r 2) + amountOf (element r 3)"

section \<open>Evaluation\<close>

declare ndigits.simps [simp del]
declare digitsOf.simps [simp del]
declare shortestDigits.simps [simp del]

lemma floor_rat_numeral: "\<lfloor>numeral a / numeral b :: rat\<rfloor> = numeral a div numeral b"
  using floor_divide_of_int_eq [where ?'a = rat, of "numeral a" "numeral b"] by simp

lemma ceiling_rat_numeral: "\<lceil>numeral a / numeral b :: rat\<rceil> = - (- numeral a div numeral b)"
  using ceiling_divide_eq_div [where ?'a = rat, of "numeral a" "numeral b"] by simp

lemmas string_eval = js_def POUND_def CRLF_def startsWith_def isWhiteSpace_def trimStart_def
  trimEnd_def trim_def split_str_def

lemmas number_eval = toDouble_def roundMagnitude_def ilog_def roundHalfEven_def signedZero_def
  signedInfinity_def isInfinite_def isZero_def isNegative_def mathValue_def
  number_unaryMinus_def number_multiply_def number_divide_def number_add_def
  number_subtract_def number_lessThan_def ndigits.simps floor_rat_numeral ceiling_rat_numeral
  Let_def

lemmas parse_eval = isDigit_def radixDigit_def isRadixDigit_def radixValue_def ExponentPart_def
  StrUnsignedDecimalLiteral_def StrDecimalLiteral_def literalValue_def parseFloat_def
  NonDecimalIntegerLiteral_def StringToNumber_def parseInt_def

lemmas print_eval = digitCandidate_def positiveToString_def number_toString_def toFixed_def
  digitsOf.simps shortestDigits.simps

section \<open>The CSV codec\<close>

lemma split_from_not_Nil: "split_from sep cur s \<noteq> []"
  by (induction sep cur s rule: split_from.induct) auto

lemma join_str_Cons: "xs \<noteq> [] \<Longrightarrow> join_str sep (x # xs) = x @ sep @ join_str sep xs"
  by (cases xs) simp_all

lemma join_split_from: "join_str sep (split_from sep cur s) = cur @ s"
proof (induction sep cur s rule: split_from.induct)
  case (1 sep cur)
  show ?case by simp
next
  case (2 sep cur c cs)
  show ?case
  proof (cases "sep \<noteq> [] \<and> take (length sep) (c # cs) = sep")
    case True
    then have "c # cs = sep @ drop (length sep) (c # cs)"
      by (metis append_take_drop_id)
    with True 2 show ?thesis
      by (simp add: join_str_Cons split_from_not_Nil del: drop_Suc_Cons take_Suc_Cons) 
  next
    case False
    with 2 show ?thesis by auto
  qed
qed

lemma join_singletons: "join_str [] (map (\<lambda>c. [c]) s) = s"
proof (induction s)
  case Nil
  show ?case by simp
next
  case (Cons a s)
  then show ?case by (cases s) simp_all
qed

lemma join_split_str: "join_str sep (split_str sep s) = s"
  by (simp add: split_str_def join_split_from join_singletons)

lemma array_join_Str: "array_join sep (map Str fields) = join_str sep fields"
  by (simp add: array_join_def elementString_def comp_def)

lemma csv_fold:
  "length xs = n - i \<Longrightarrow> i \<le> n \<Longrightarrow>
   foldl (\<lambda>csvStr (index, csvLine).
            csvStr @ g csvLine @ (if int index \<noteq> int n - 1 then CRLF else []))
     acc (zip [i..<n] xs)
   = acc @ join_str CRLF (map g xs)"
proof (induction xs arbitrary: i acc)
  case Nil
  then show ?case by simp
next
  case (Cons x xs)
  then have lt: "i < n" by auto
  then have upt: "[i..<n] = i # [Suc i..<n]" by (simp add: upt_conv_Cons)
  show ?case
  proof (cases xs)
    case Nil
    with Cons.prems have "Suc i = n" by simp
    with Nil upt show ?thesis by auto
  next
    case (Cons y ys)
    with Cons.prems have "Suc i < n" by simp
    moreover have "length xs = n - Suc i" "Suc i \<le> n" using Cons.prems by auto
    ultimately show ?thesis
      using Cons.IH [of "Suc i"] upt Cons by simp
  qed
qed

lemma convertArrayToCSVStr_join:
  "convertArrayToCSVStr dataArr = join_str CRLF (map (array_join (js '','')) dataArr)"
  unfolding convertArrayToCSVStr_def
  using csv_fold [of dataArr "length dataArr" 0 "array_join (js '','')" "[]"] by simp

text \<open>
  Claim C4. Serialising the rows parsed from a text gives the text back, for every text:
  \<open>convertArrayToCSVStr(convertCSVStrToArr(T)) == T\<close>. Nothing is appended after the
  last row. The claim asks this of texts with no comma or line break inside a field; a
  field never contains one after parsing, and the equation needs no condition at all.
\<close>

theorem csv_round_trip: "convertArrayToCSVStr (convertCSVStrToArr T) = T"
  by (simp add: convertArrayToCSVStr_join convertCSVStrToArr_def comp_def array_join_Str
      join_split_str)

section \<open>Trimming and trailing line breaks\<close>

lemma isWhiteSpace_CRLF: "isWhiteSpace 0x0D" "isWhiteSpace 0x0A"
  by (simp_all add: isWhiteSpace_def)

lemma trimEnd_append_CRLF: "trimEnd (s @ CRLF) = trimEnd s"
  by (simp add: trimEnd_def CRLF_def isWhiteSpace_CRLF)

lemma trim_append_CRLF: "trim (s @ CRLF) = trim s"
proof (cases "\<forall>c \<in> set s. isWhiteSpace c")
  case True
  then have a: "dropWhile isWhiteSpace s = []" by simp
  from True have b: "dropWhile isWhiteSpace (s @ CRLF) = []"
    by (simp add: CRLF_def isWhiteSpace_CRLF)
  show ?thesis unfolding trim_def trimStart_def a b ..
next
  case False
  then have "dropWhile isWhiteSpace (s @ CRLF) = dropWhile isWhiteSpace s @ CRLF"
    by auto
  then show ?thesis by (simp add: trim_def trimStart_def trimEnd_append_CRLF)
qed

lemma trimEnd_last: "trimEnd s \<noteq> [] \<Longrightarrow> \<not> isWhiteSpace (last (trimEnd s))"
  unfolding trimEnd_def by (simp add: last_rev hd_dropWhile)

lemma trim_last: "trim s \<noteq> [] \<Longrightarrow> \<not> isWhiteSpace (last (trim s))"
  unfolding trim_def by (rule trimEnd_last)

lemma split_from_last_empty:
  "last (split_from sep cur s) = [] \<Longrightarrow> sep \<noteq> [] \<Longrightarrow> (cur = [] \<and> s = []) \<or> (\<exists>p. s = p @ sep)"
proof (induction sep cur s rule: split_from.induct)
  case (1 sep cur)
  then show ?case by simp
next
  case (2 sep cur c cs)
  show ?case
  proof (cases "take (length sep) (c # cs) = sep")
    case True
    then have eq: "c # cs = sep @ drop (length sep) (c # cs)"
      by (metis append_take_drop_id)
    from True 2 have "last (split_from sep [] (drop (length sep) (c # cs))) = []"
      by (simp add: split_from_not_Nil)
    with 2 True have "drop (length sep) (c # cs) = [] \<or> (\<exists>p. drop (length sep) (c # cs) = p @ sep)"
      by blast
    then show ?thesis
    proof
      assume "drop (length sep) (c # cs) = []"
      with eq have "c # cs = [] @ sep" by simp
      then show ?thesis by blast
    next
      assume "\<exists>p. drop (length sep) (c # cs) = p @ sep"
      then obtain p where "drop (length sep) (c # cs) = p @ sep" ..
      with eq have "c # cs = (sep @ p) @ sep" by simp
      then show ?thesis by blast
    qed
  next
    case False
    with 2 have "last (split_from sep (cur @ [c]) cs) = []" by simp
    with 2 False have "\<exists>p. cs = p @ sep" by auto
    then obtain p where "cs = p @ sep" ..
    then have "c # cs = (c # p) @ sep" by simp
    then show ?thesis by blast
  qed
qed

lemma split_CRLF_trim_last: 
  assumes "trim text \<noteq> []"
  shows "last (split_str CRLF (trim text)) \<noteq> []"
proof
  assume "last (split_str CRLF (trim text)) = []"
  then have "last (split_from CRLF [] (trim text)) = []"
    by (simp add: split_str_def CRLF_def)
  then have "\<exists>p. trim text = p @ CRLF"
    using split_from_last_empty [of CRLF "[]" "trim text"] assms by (auto simp: CRLF_def)
  then obtain p where "trim text = p @ CRLF" ..
  then have "last (trim text) = 0x0A" by (simp add: CRLF_def)
  with trim_last [OF assms] show False by (simp add: isWhiteSpace_CRLF)
qed

lemma split_str_not_Nil: "sep \<noteq> [] \<Longrightarrow> split_str sep s \<noteq> []"
  by (simp add: split_str_def split_from_not_Nil)

lemma split_str_empty_field: "split_str sep s = [[]] \<Longrightarrow> s = []"
  using join_split_str [of sep s] by simp

lemma convertCSVStrToArr_trim_last:
  assumes "trim text \<noteq> []"
  shows "last (convertCSVStrToArr (trim text)) \<noteq> [Str []]"
proof
  assume a: "last (convertCSVStrToArr (trim text)) = [Str []]"
  have ne: "split_str CRLF (trim text) \<noteq> []"
    by (rule split_str_not_Nil) (simp add: CRLF_def)
  from a ne have "map Str (split_str (js '','') (last (split_str CRLF (trim text)))) = [Str []]"
    by (simp add: convertCSVStrToArr_def last_map)
  then have "split_str (js '','') (last (split_str CRLF (trim text))) = [[]]"
    by (auto simp: map_eq_Cons_conv)
  then have "last (split_str CRLF (trim text)) = []"
    by (rule split_str_empty_field)
  with split_CRLF_trim_last [OF assms] show False by simp
qed

lemma split_from_append_CRLF:
  "split_from CRLF cur (s @ CRLF) = split_from CRLF cur s @ [[]]"
proof (induction "CRLF" cur s rule: split_from.induct)
  case (1 cur)
  show ?case by (simp add: CRLF_def)
next
  case (2 cur c cs)
  show ?case
  proof (cases "take (length CRLF) (c # cs) = CRLF")
    case True
    then obtain rest where cs: "cs = 0x0A # rest" and c: "c = 0x0D"
      by (cases cs) (auto simp: CRLF_def)
    have "split_from CRLF [] (rest @ CRLF) = split_from CRLF [] rest @ [[]]"
      using 2(1) True by (simp add: CRLF_def cs c)
    then show ?thesis by (simp add: CRLF_def cs c)
  next
    case False
    have "take (length CRLF) ((c # cs) @ CRLF) \<noteq> CRLF"
    proof (cases cs)
      case Nil
      then show ?thesis by (simp add: CRLF_def)
    next
      case (Cons d ds)
      with False show ?thesis by (simp add: CRLF_def)
    qed
    then have "split_from CRLF cur ((c # cs) @ CRLF) = split_from CRLF (cur @ [c]) (cs @ CRLF)"
      by simp
    also have "\<dots> = split_from CRLF (cur @ [c]) cs @ [[]]"
      using 2(2) False by simp
    also have "\<dots> = split_from CRLF cur (c # cs) @ [[]]"
      using False by simp
    finally show ?thesis .
  qed
qed

lemma convertCSVStrToArr_append_CRLF:
  "convertCSVStrToArr (csvStr @ CRLF) = convertCSVStrToArr csvStr @ [[Str []]]"
proof -
  have "split_str CRLF (csvStr @ CRLF) = split_str CRLF csvStr @ [[]]"
    using split_from_append_CRLF [of "[]" csvStr] by (simp add: split_str_def CRLF_def)
  moreover have "split_str (js '','') [] = [[]]"
    by (simp add: split_str_def js_def)
  ultimately show ?thesis by (simp add: convertCSVStrToArr_def)
qed

lemma trimStart_prefix: "list_all isWhiteSpace pre \<Longrightarrow> trimStart (pre @ s) = trimStart s"
  unfolding trimStart_def by (rule dropWhile_append2) (simp add: list_all_iff)

lemma trimEnd_suffix: "list_all isWhiteSpace post \<Longrightarrow> trimEnd (s @ post) = trimEnd s"
proof -
  assume "list_all isWhiteSpace post"
  then have "dropWhile isWhiteSpace (rev post @ rev s) = dropWhile isWhiteSpace (rev s)"
    by (intro dropWhile_append2) (simp add: list_all_iff)
  then show ?thesis by (simp add: trimEnd_def)
qed

lemma trim_suffix:
  assumes "list_all isWhiteSpace post"
  shows "trim (s @ post) = trim s"
proof (cases "\<forall>c \<in> set s. isWhiteSpace c")
  case True
  then have a: "dropWhile isWhiteSpace s = []" by simp
  from True assms have b: "dropWhile isWhiteSpace (s @ post) = []"
    by (simp add: list_all_iff)
  show ?thesis unfolding trim_def trimStart_def a b ..
next
  case False
  then have "dropWhile isWhiteSpace (s @ post) = dropWhile isWhiteSpace s @ post"
    by auto
  then show ?thesis by (simp add: trim_def trimStart_def trimEnd_suffix [OF assms])
qed

lemma trim_surrounded:
  assumes "list_all isWhiteSpace pre" "list_all isWhiteSpace post"
  shows "trim (pre @ s @ post) = trim s"
proof -
  have "trim (pre @ s @ post) = trim ((pre @ s) @ post)" by simp
  also have "\<dots> = trim (pre @ s)" by (rule trim_suffix [OF assms(2)])
  also have "\<dots> = trim s" by (simp add: trim_def trimStart_prefix [OF assms(1)])
  finally show ?thesis .
qed

lemma trimEnd_decompose:
  "s = trimEnd s @ rev (takeWhile isWhiteSpace (rev s))"
proof -
  have "trimEnd s @ rev (takeWhile isWhiteSpace (rev s))
      = rev (takeWhile isWhiteSpace (rev s) @ dropWhile isWhiteSpace (rev s))"
    by (simp only: trimEnd_def rev_append)
  also have "\<dots> = s" by (simp only: takeWhile_dropWhile_id rev_rev_ident)
  finally show ?thesis by (rule sym)
qed

lemma trim_decompose:
  "s = takeWhile isWhiteSpace s @ trim s
        @ rev (takeWhile isWhiteSpace (rev (trimStart s)))"
proof -
  have "s = takeWhile isWhiteSpace s @ trimStart s" by (simp add: trimStart_def)
  also have "trimStart s = trim s @ rev (takeWhile isWhiteSpace (rev (trimStart s)))"
    unfolding trim_def by (rule trimEnd_decompose)
  finally show ?thesis .
qed

lemma takeWhile_all: "list_all P (takeWhile P xs)"
  by (auto simp: list_all_iff dest: set_takeWhileD)

lemma trim_removes_white_space:
  "\<exists>pre post. s = pre @ trim s @ post \<and> list_all isWhiteSpace pre \<and> list_all isWhiteSpace post"
proof (intro exI conjI)
  show "s = takeWhile isWhiteSpace s @ trim s
        @ rev (takeWhile isWhiteSpace (rev (trimStart s)))"
    by (rule trim_decompose)
  show "list_all isWhiteSpace (takeWhile isWhiteSpace s)" by (rule takeWhile_all)
  show "list_all isWhiteSpace (rev (takeWhile isWhiteSpace (rev (trimStart s))))"
    using takeWhile_all [of isWhiteSpace "rev (trimStart s)"] by (simp add: list_all_iff)
qed

lemma trim_hd:
  assumes "trim s \<noteq> []"
  shows "\<not> isWhiteSpace (hd (trim s))"
proof -
  from trimEnd_decompose [of "trimStart s"]
  have d: "trimStart s = trim s @ rev (takeWhile isWhiteSpace (rev (trimStart s)))"
    by (simp add: trim_def)
  with assms have ne: "trimStart s \<noteq> []" by auto
  from d assms have "hd (trimStart s) = hd (trim s)" by (metis hd_append2)
  moreover from ne have "\<not> isWhiteSpace (hd (trimStart s))"
    unfolding trimStart_def by (rule hd_dropWhile)
  ultimately show ?thesis by simp
qed

lemmas program_eval = element_def elementString_def array_join_def toPropertyKey_def
  templateNumber_def toNumber_def truthy_def hasOwnProperty_def callHasOwnProperty_def
  getProperty_def setProperty_def
  isArrayIndex_def ownKeys_def readFileSync_def writeFileSync_def BASE_COMMISSION_def
  BONUS_AMOUNT_def BONUS_TYPE_1_def BONUS_TYPE_2_def THRESHOLD_AMOUNT_1_def
  THRESHOLD_AMOUNT_2_def TARGET_AMOUNT_1_def TARGET_AMOUNT_2_def CURRENCY_LOOKUP_def
  convertCSVStrToArr_def convertArrayToCSVStr_def convertCase_def convertCasesToGBP_def
  bonusCalculator_def commissionRow_def getCommissionData_def summaryStep_def
  getCommissionSummaryData_def getCaseCommissionData_def createCommissionCSV_def

lemmas js_eval = string_eval parse_eval number_eval print_eval program_eval

text \<open>
  Claim C10. \<open>createCommissionCSV\<close> hands \<open>trim\<close> of the file's text to the pipeline, so
  the rows the generator receives are those of the trimmed text; the report is written
  when the generator returns and the output name can be written, and the run throws
  otherwise. \<open>trim\<close> removes white space at both ends and nothing else: the text is
  \<open>trim\<close> of it between two runs of white space, a non-empty trimmed text neither starts
  nor ends with white space, and white space put before and after a text does not change
  what is parsed. In particular a line break at the end of the file is trimmed away, and
  the last row parsed from a trimmed, non-empty text is never the row of one empty field.
  \<open>getCaseCommissionData\<close> parses its argument as it is, and parsing a text that ends in
  a line break yields one more row, of one empty field.
\<close>

theorem createCommissionCSV_trims_input:
  "createCommissionCSV fs inputFileName outputFileName dataGenerator =
     (case files fs inputFileName of
        None \<Rightarrow> Inl IOError
      | Some text \<Rightarrow>
          (case dataGenerator (convertCSVStrToArr (trim text)) of
             Inl e \<Rightarrow> Inl e
           | Inr rows \<Rightarrow>
               if writable fs outputFileName
               then Inr (Filesystem ((files fs)(outputFileName \<mapsto> convertArrayToCSVStr rows))
                          (writable fs))
               else Inl IOError))
   \<and> (\<exists>before after. csvStr = before @ trim csvStr @ after
          \<and> list_all isWhiteSpace before \<and> list_all isWhiteSpace after)
   \<and> (trim csvStr \<noteq> [] \<longrightarrow>
        \<not> isWhiteSpace (hd (trim csvStr)) \<and> \<not> isWhiteSpace (last (trim csvStr)))
   \<and> (list_all isWhiteSpace pre \<longrightarrow> list_all isWhiteSpace post \<longrightarrow>
        trim (pre @ csvStr @ post) = trim csvStr)
   \<and> trim (csvStr @ CRLF) = trim csvStr
   \<and> (trim csvStr \<noteq> [] \<longrightarrow> last (convertCSVStrToArr (trim csvStr)) \<noteq> [Str []])
   \<and> getCaseCommissionData csvStr dataGenerator =
       (case dataGenerator (convertCSVStrToArr csvStr) of
          Inl e \<Rightarrow> Inl e
        | Inr rows \<Rightarrow> Inr (convertArrayToCSVStr rows))
   \<and> convertCSVStrToArr (csvStr @ CRLF) = convertCSVStrToArr csvStr @ [[Str []]]"
proof (intro conjI)
  show "createCommissionCSV fs inputFileName outputFileName dataGenerator =
     (case files fs inputFileName of
        None \<Rightarrow> Inl IOError
      | Some text \<Rightarrow>
          (case dataGenerator (convertCSVStrToArr (trim text)) of
             Inl e \<Rightarrow> Inl e
           | Inr rows \<Rightarrow>
               if writable fs outputFileName
               then Inr (Filesystem ((files fs)(outputFileName \<mapsto> convertArrayToCSVStr rows))
                          (writable fs))
               else Inl IOError))"
    by (simp add: createCommissionCSV_def readFileSync_def writeFileSync_def
        getCaseCommissionData_def split: option.split sum.split)
  show "\<exists>before after. csvStr = before @ trim csvStr @ after
          \<and> list_all isWhiteSpace before \<and> list_all isWhiteSpace after"
    by (rule trim_removes_white_space)
  show "trim csvStr \<noteq> [] \<longrightarrow>
        \<not> isWhiteSpace (hd (trim csvStr)) \<and> \<not> isWhiteSpace (last (trim csvStr))"
    using trim_hd [of csvStr] trim_last [of csvStr] by blast
  show "list_all isWhiteSpace pre \<longrightarrow> list_all isWhiteSpace post \<longrightarrow>
        trim (pre @ csvStr @ post) = trim csvStr"
    using trim_surrounded [of pre post csvStr] by blast
  show "trim (csvStr @ CRLF) = trim csvStr"
    by (rule trim_append_CRLF)
  show "trim csvStr \<noteq> [] \<longrightarrow> last (convertCSVStrToArr (trim csvStr)) \<noteq> [Str []]"
    using convertCSVStrToArr_trim_last [of csvStr] by blast
  show "getCaseCommissionData csvStr dataGenerator =
       (case dataGenerator (convertCSVStrToArr csvStr) of
          Inl e \<Rightarrow> Inl e
        | Inr rows \<Rightarrow> Inr (convertArrayToCSVStr rows))"
    by (simp add: getCaseCommissionData_def)
  show "convertCSVStrToArr (csvStr @ CRLF) = convertCSVStrToArr csvStr @ [[Str []]]"
    by (rule convertCSVStrToArr_append_CRLF)
qed

theorem createCommissionCSV_trims_input_witness:
  "createCommissionCSV
       (Filesystem
          [js ''cases.csv'' \<mapsto> (0x20 # 0x09 # CRLF)
              @ (js ''BrokerName,CaseId,CaseValue'' @ CRLF @ js ''Alice,1,$100.00'')
              @ (CRLF @ [0x20])]
          (\<lambda>name. name = js ''out.csv''))
       (js ''cases.csv'') (js ''out.csv'') (\<lambda>rows. getCommissionData rows None)
     = Inr (Filesystem
          [js ''cases.csv'' \<mapsto> (0x20 # 0x09 # CRLF)
              @ (js ''BrokerName,CaseId,CaseValue'' @ CRLF @ js ''Alice,1,$100.00'')
              @ (CRLF @ [0x20]),
           js ''out.csv'' \<mapsto> js ''BrokerName,CaseId,BaseCommission,BonusCommission'' @ CRLF
                                @ js ''Alice,1,'' @ POUND @ js ''125'']
          (\<lambda>name. name = js ''out.csv''))
   \<and> createCommissionCSV
       (Filesystem
          [js ''cases.csv'' \<mapsto> (0x20 # 0x09 # CRLF)
              @ (js ''BrokerName,CaseId,CaseValue'' @ CRLF @ js ''Alice,1,$100.00'')
              @ (CRLF @ [0x20])]
          (\<lambda>name. name = js ''out.csv''))
       (js ''cases.csv'') (js ''reports/out.csv'') (\<lambda>rows. getCommissionData rows None)
     = Inl IOError
   \<and> trim ((0x20 # 0x09 # CRLF)
              @ (js ''BrokerName,CaseId,CaseValue'' @ CRLF @ js ''Alice,1,$100.00'')
              @ (CRLF @ [0x20]))
       = js ''BrokerName,CaseId,CaseValue'' @ CRLF @ js ''Alice,1,$100.00''
   \<and> trim ((js ''BrokerName,CaseId,CaseValue'' @ CRLF @ js ''Alice,1,$100.00'') @ CRLF)
       = js ''BrokerName,CaseId,CaseValue'' @ CRLF @ js ''Alice,1,$100.00''
   \<and> last (convertCSVStrToArr (trim (js ''BrokerName,CaseId,CaseValue'' @ CRLF @ js ''Alice,1,$100.00'')))
       = map Str [js ''Alice'', js ''1'', js ''$100.00'']
   \<and> getCaseCommissionData ((js ''BrokerName,CaseId,CaseValue'' @ CRLF @ js ''Alice,1,$100.00'') @ CRLF)
         (\<lambda>rows. getCommissionData rows None) = Inl TypeError
   \<and> convertCSVStrToArr ((js ''BrokerName,CaseId,CaseValue'' @ CRLF @ js ''Alice,1,$100.00'') @ CRLF)
       = [map Str [js ''BrokerName'', js ''CaseId'', js ''CaseValue''],
          map Str [js ''Alice'', js ''1'', js ''$100.00''], [Str []]]"
proof -
  let ?T = "js ''BrokerName,CaseId,CaseValue'' @ CRLF @ js ''Alice,1,$100.00''"
  let ?text = "(0x20 # 0x09 # CRLF) @ ?T @ (CRLF @ [0x20])"
  let ?fs = "Filesystem [js ''cases.csv'' \<mapsto> ?text] (\<lambda>name. name = js ''out.csv'')"
  let ?gen = "\<lambda>rows. getCommissionData rows None"
  let ?rows = "[map Str [js ''BrokerName'', js ''CaseId'', js ''CaseValue''],
          map Str [js ''Alice'', js ''1'', js ''$100.00'']]"
  let ?report = "js ''BrokerName,CaseId,BaseCommission,BonusCommission'' @ CRLF
                   @ js ''Alice,1,'' @ POUND @ js ''125''"
  note inst = createCommissionCSV_trims_input
    [of ?fs "js ''cases.csv''" "js ''out.csv''" ?gen ?T "0x20 # 0x09 # CRLF" "CRLF @ [0x20]"]
  note inst' = createCommissionCSV_trims_input
    [of ?fs "js ''cases.csv''" "js ''reports/out.csv''" ?gen ?T "0x20 # 0x09 # CRLF" "CRLF @ [0x20]"]
  have white: "list_all isWhiteSpace (0x20 # 0x09 # CRLF)" "list_all isWhiteSpace (CRLF @ [0x20])"
    by (simp_all add: isWhiteSpace_def CRLF_def)
  have trimT: "trim ?T = ?T" by (simp add: string_eval)
  have parseT: "convertCSVStrToArr ?T = ?rows"
    by (simp add: string_eval convertCSVStrToArr_def)
  have infile: "files ?fs (js ''cases.csv'') = Some ?text" by simp
  have can: "writable ?fs (js ''out.csv'') = True" by simp
  have cannot: "writable ?fs (js ''reports/out.csv'') = False" by (simp add: js_def)
  have gen: "getCommissionData ?rows None
     = Inr [map Str [js ''BrokerName'', js ''CaseId'', js ''BaseCommission'', js ''BonusCommission''],
            [Str (js ''Alice''), Str (js ''1''), Str (POUND @ js ''125'')]]"
    by (simp add: js_eval cong: let_weak_cong)
  have ser: "convertArrayToCSVStr
       [map Str [js ''BrokerName'', js ''CaseId'', js ''BaseCommission'', js ''BonusCommission''],
        [Str (js ''Alice''), Str (js ''1''), Str (POUND @ js ''125'')]]
     = ?report"
    by (simp add: js_eval)
  have gen2: "getCommissionData (?rows @ [[Str []]]) None = Inl TypeError"
    by (simp add: js_eval cong: let_weak_cong)
  from inst white have "trim ?text = trim ?T" by blast
  then have 0: "trim ?text = ?T" unfolding trimT .
  from inst have 1: "trim (?T @ CRLF) = ?T" using trimT by simp
  from inst have 2: "convertCSVStrToArr (?T @ CRLF) = ?rows @ [[Str []]]" using parseT by simp
  from inst have 3: "getCaseCommissionData (?T @ CRLF) ?gen = Inl TypeError"
    using getCaseCommissionData_def 2 gen2 by simp
  from inst have 4: "createCommissionCSV ?fs (js ''cases.csv'') (js ''out.csv'') ?gen
     = Inr (Filesystem ((files ?fs)(js ''out.csv'' \<mapsto> ?report)) (writable ?fs))"
    unfolding infile option.case 0 parseT gen sum.case ser can if_True by blast
  from inst' have 5: "createCommissionCSV ?fs (js ''cases.csv'') (js ''reports/out.csv'') ?gen
     = Inl IOError"
    unfolding infile option.case 0 parseT gen sum.case ser cannot if_False by blast
  have 6: "last (convertCSVStrToArr (trim ?T)) = map Str [js ''Alice'', js ''1'', js ''$100.00'']"
    unfolding trimT parseT by simp
  from 4 have 7: "createCommissionCSV ?fs (js ''cases.csv'') (js ''out.csv'') ?gen
     = Inr (Filesystem [js ''cases.csv'' \<mapsto> ?text, js ''out.csv'' \<mapsto> ?report]
              (\<lambda>name. name = js ''out.csv''))"
    by (simp only: filesystem.sel)
  from 0 1 2 3 5 6 7 show ?thesis by simp
qed

section \<open>Row by row\<close>

lemma mapE_Inr_iff: "mapE f xs = Inr ys \<longleftrightarrow> list_all2 (\<lambda>x y. f x = Inr y) xs ys"
proof (induction xs arbitrary: ys)
  case Nil
  show ?case by auto
next
  case (Cons x xs)
  show ?case
  proof (cases ys)
    case Nil
    then show ?thesis by (simp split: sum.splits)
  next
    case (Cons y zs)
    with Cons.IH [of zs] show ?thesis by (auto split: sum.splits)
  qed
qed

lemma mapE_total:
  "\<forall>x \<in> set xs. \<exists>y. f x = Inr y \<Longrightarrow> \<exists>ys. mapE f xs = Inr ys"
proof (induction xs)
  case Nil
  show ?case by simp
next
  case (Cons x xs)
  then obtain y ys where "f x = Inr y" "mapE f xs = Inr ys" by auto
  then show ?case by simp
qed

lemma list_all2_compose:
  "list_all2 P xs ys \<Longrightarrow> list_all2 Q ys zs \<Longrightarrow> list_all2 (\<lambda>x z. \<exists>y. P x y \<and> Q y z) xs zs"
proof (induction xs ys arbitrary: zs rule: list_all2_induct)
  case Nil
  then show ?case by simp
next
  case (Cons x xs y ys)
  then show ?case by (auto simp: list_all2_Cons1)
qed

lemma element_Nil [simp]: "element [] n = Undefined"
  by (simp add: element_def)

lemma element_Cons [simp]: "element (a # r) n = (case n of 0 \<Rightarrow> a | Suc m \<Rightarrow> element r m)"
  by (simp add: element_def split: nat.split)

lemma convertCase_Str:
  "element r 2 = Str v \<Longrightarrow>
   convertCase L r =
     Inr (if startsWith v POUND then r
          else [element r 0, element r 1,
                Str (POUND @ toFixed 2 (parseFloat (number_toString
                  (number_multiply (StringToNumber (drop 1 v)) (toNumber (L (take 1 v)))))))])"
  by (simp add: convertCase_def)

lemma convertCase_Undefined: "element r 2 = Undefined \<Longrightarrow> convertCase L r = Inl TypeError"
  by (simp add: convertCase_def)

lemma convertCase_Inr:
  assumes "convertCase L r = Inr gbp"
  shows "element gbp 0 = element r 0" "element gbp 1 = element r 1" "\<exists>v. element gbp 2 = Str v"
proof -
  from assms obtain v where v: "element r 2 = Str v"
    by (cases "element r 2") (auto simp: convertCase_Undefined)
  from assms convertCase_Str [OF v, of L]
  have "gbp = r \<or> (\<exists>s. gbp = [element r 0, element r 1, Str s])"
    by (auto split: if_splits)
  with v show "element gbp 0 = element r 0" "element gbp 1 = element r 1"
    "\<exists>v. element gbp 2 = Str v"
    by auto
qed

lemma bonusCalculator_Str:
  "bonusCalculator (Str v) threshold target =
     Inr (if number_lessThan threshold (parseFloat (drop 1 v))
          then number_multiply
                 (parseInt (number_toString
                    (number_divide (number_subtract (parseFloat (drop 1 v)) threshold) target)))
                 BONUS_AMOUNT
          else Num 0)"
  by (simp add: bonusCalculator_def)

lemma bonusCalculator_total: "\<exists>n. bonusCalculator (Str v) threshold target = Inr n"
  by (simp add: bonusCalculator_Str)

lemma commissionRow_Str:
  assumes "element gbp 2 = Str v"
  shows "commissionRow bonusCalculation (Some gbp) =
     Inr ([element gbp 0, element gbp 1, Str (POUND @ number_toString BASE_COMMISSION)]
          @ (if truthy bonusCalculation
             then [Str (POUND @ number_toString
                     (if bonusCalculation = Some BONUS_TYPE_2
                      then number_add
                             (projr (bonusCalculator (Str v) THRESHOLD_AMOUNT_1 TARGET_AMOUNT_1))
                             (projr (bonusCalculator (Str v) THRESHOLD_AMOUNT_2 TARGET_AMOUNT_2))
                      else projr (bonusCalculator (Str v) THRESHOLD_AMOUNT_1 TARGET_AMOUNT_1)))]
             else []))"
  using assms by (simp add: commissionRow_def bonusCalculator_Str)

lemma convertCasesToGBP_rows:
  assumes "\<forall>r \<in> set (drop 1 brokerCases). element r 2 \<noteq> Undefined"
  shows "\<exists>gbps. convertCasesToGBP brokerCases L
            = Inr ((case brokerCases of [] \<Rightarrow> None | h # rest \<Rightarrow> Some h) # map Some gbps)
          \<and> list_all2 (\<lambda>r gbp. convertCase L r = Inr gbp) (drop 1 brokerCases) gbps"
proof -
  have "\<forall>r \<in> set (drop 1 brokerCases). \<exists>gbp. convertCase L r = Inr gbp"
  proof
    fix r assume "r \<in> set (drop 1 brokerCases)"
    with assms obtain v where "element r 2 = Str v" by (cases "element r 2") auto
    then show "\<exists>gbp. convertCase L r = Inr gbp" by (simp add: convertCase_Str)
  qed
  then obtain gbps where g: "mapE (convertCase L) (drop 1 brokerCases) = Inr gbps"
    using mapE_total by blast
  then have "list_all2 (\<lambda>r gbp. convertCase L r = Inr gbp) (drop 1 brokerCases) gbps"
    by (simp add: mapE_Inr_iff)
  with g show ?thesis by (simp add: convertCasesToGBP_def)
qed

lemma getCommissionData_rows:
  assumes "\<forall>r \<in> set (drop 1 brokerCases). element r 2 \<noteq> Undefined"
  shows "\<exists>rows. getCommissionData brokerCases bonusCalculation
            = Inr (map Str [js ''BrokerName'', js ''CaseId'', js ''BaseCommission'',
                            js ''BonusCommission''] # rows)
          \<and> list_all2 (\<lambda>r row. \<exists>gbp. convertCase CURRENCY_LOOKUP r = Inr gbp
                                 \<and> commissionRow bonusCalculation (Some gbp) = Inr row)
               (drop 1 brokerCases) rows"
proof -
  from convertCasesToGBP_rows [OF assms, of CURRENCY_LOOKUP]
  obtain gbps where
    c: "convertCasesToGBP brokerCases CURRENCY_LOOKUP
          = Inr ((case brokerCases of [] \<Rightarrow> None | h # rest \<Rightarrow> Some h) # map Some gbps)"
    and l: "list_all2 (\<lambda>r gbp. convertCase CURRENCY_LOOKUP r = Inr gbp) (drop 1 brokerCases) gbps"
    by blast
  have "\<forall>g \<in> set (map Some gbps). \<exists>row. commissionRow bonusCalculation g = Inr row"
  proof
    fix g assume "g \<in> set (map Some gbps)"
    then obtain gbp where gbp: "g = Some gbp" "gbp \<in> set gbps" by auto
    with l obtain r where "convertCase CURRENCY_LOOKUP r = Inr gbp"
      by (auto simp: list_all2_conv_all_nth in_set_conv_nth)
    then obtain v where "element gbp 2 = Str v" using convertCase_Inr(3) by blast
    with gbp show "\<exists>row. commissionRow bonusCalculation g = Inr row"
      by (simp add: commissionRow_Str)
  qed
  then obtain rows where m: "mapE (commissionRow bonusCalculation) (map Some gbps) = Inr rows"
    using mapE_total by blast
  then have "list_all2 (\<lambda>g row. commissionRow bonusCalculation g = Inr row) (map Some gbps) rows"
    by (simp add: mapE_Inr_iff)
  then have "list_all2 (\<lambda>gbp row. commissionRow bonusCalculation (Some gbp) = Inr row) gbps rows"
    by (simp add: list_all2_map1)
  from list_all2_compose [OF l this] c m show ?thesis
    by (simp add: getCommissionData_def)
qed

section \<open>Digit strings\<close>

lemma uint_digit_char:
  "0 \<le> d \<Longrightarrow> d < 10 \<Longrightarrow> uint (of_int (0x30 + d) :: jschar) = 0x30 + d"
  by (simp add: uint_word_of_int take_bit_eq_mod del: of_int_add)

lemma isDigit_uint: "isDigit c \<longleftrightarrow> 0x30 \<le> uint c \<and> uint c \<le> 0x39"
  by (simp add: isDigit_def word_le_def)

lemma radixDigit_isDigit: "isDigit c \<Longrightarrow> radixDigit c = uint c - 0x30"
  by (simp add: radixDigit_def isDigit_def)

lemma digit_char:
  assumes "0 \<le> d" "d < 10"
  shows "isDigit (of_int (0x30 + d))" "radixDigit (of_int (0x30 + d)) = d"
proof -
  show *: "isDigit (of_int (0x30 + d))"
    using assms by (simp add: isDigit_uint uint_digit_char del: of_int_add)
  show "radixDigit (of_int (0x30 + d)) = d"
    using assms by (simp add: radixDigit_isDigit [OF *] uint_digit_char del: of_int_add)
qed

lemma radixValue_snoc: "radixValue R (ds @ [c]) = R * radixValue R ds + radixDigit c"
  by (simp add: radixValue_def)

lemma digitsOf_props:
  "0 \<le> n \<Longrightarrow> digitsOf n \<noteq> [] \<and> list_all isDigit (digitsOf n) \<and> radixValue 10 (digitsOf n) = n"
proof (induction n rule: digitsOf.induct)
  case (1 n)
  show ?case
  proof (cases "n < 10")
    case True
    with 1(2) digit_char [of n] show ?thesis
      by (simp add: digitsOf.simps [of n] radixValue_def del: of_int_add)
  next
    case False
    with 1 have ih: "digitsOf (n div 10) \<noteq> []" "list_all isDigit (digitsOf (n div 10))"
      "radixValue 10 (digitsOf (n div 10)) = n div 10"
      by auto
    have "0 \<le> n mod 10" "n mod 10 < 10" by simp_all
    from digit_char [OF this] False ih show ?thesis
      by (simp add: digitsOf.simps [of n] radixValue_snoc del: of_int_add)
  qed
qed

lemma radixValue_append:
  "radixValue R (a @ b) = radixValue R a * R ^ length b + radixValue R b"
proof (induction b rule: rev_induct)
  case Nil
  show ?case by (simp add: radixValue_def)
next
  case (snoc c b)
  have "radixValue R (a @ b @ [c]) = R * radixValue R (a @ b) + radixDigit c"
    using radixValue_snoc [of R "a @ b" c] by simp
  with snoc show ?case by (simp add: radixValue_snoc algebra_simps)
qed

lemma radixValue_zeros: "radixValue R (replicate k 0x30 @ ds) = radixValue R ds"
proof (induction k)
  case 0
  show ?case by simp
next
  case (Suc k)
  have "radixValue R (0x30 # replicate k 0x30 @ ds) = radixValue R (replicate k 0x30 @ ds)"
    by (simp add: radixValue_def radixDigit_def)
  with Suc show ?case by simp
qed

lemma startsWith_digit_string:
  assumes "ds \<noteq> []" "list_all isDigit ds"
  shows "\<not> startsWith (ds @ rest) (js ''Infinity'')" "\<not> startsWith (ds @ rest) (js ''-'')"
    "\<not> startsWith (ds @ rest) (js ''+'')"
proof -
  from assms obtain d ds' where ds: "ds = d # ds'" and d: "isDigit d"
    by (cases ds) auto
  from d have "d \<noteq> 0x49" "d \<noteq> 0x2D" "d \<noteq> 0x2B"
    by (auto simp: isDigit_def)
  then show "\<not> startsWith (ds @ rest) (js ''Infinity'')" "\<not> startsWith (ds @ rest) (js ''-'')"
    "\<not> startsWith (ds @ rest) (js ''+'')"
    by (simp_all add: startsWith_def js_def ds)
qed

lemma ExponentPart_Nil: "ExponentPart [] = (0, [])"
  by (simp add: ExponentPart_def startsWith_def js_def)

lemma takeWhile_digits_dot:
  assumes "list_all isDigit ip"
  shows "takeWhile isDigit (ip @ 0x2E # fp) = ip"
    "dropWhile isDigit (ip @ 0x2E # fp) = 0x2E # fp"
  using assms by (induction ip) (simp_all add: isDigit_def)

lemma takeWhile_all_digits:
  assumes "list_all isDigit fp"
  shows "takeWhile isDigit fp = fp" "dropWhile isDigit fp = []"
  using assms by (induction fp) simp_all

lemma StrUnsignedDecimalLiteral_fixed:
  assumes "ip \<noteq> []" "list_all isDigit ip" "list_all isDigit fp"
  shows "StrUnsignedDecimalLiteral (ip @ 0x2E # fp) =
     Some (Some (of_int (radixValue 10 ip) + of_int (radixValue 10 fp) / 10 ^ length fp), [])"
proof -
  have dot: "startsWith (0x2E # fp) (js ''.'')"
    by (simp add: startsWith_def js_def)
  show ?thesis
    unfolding StrUnsignedDecimalLiteral_def
    using startsWith_digit_string(1) [OF assms(1,2)] assms(1)
    by (simp add: takeWhile_digits_dot [OF assms(2)] dot takeWhile_all_digits [OF assms(3)]
        ExponentPart_Nil Let_def)
qed

lemma StrDecimalLiteral_fixed:
  assumes "ip \<noteq> []" "list_all isDigit ip" "list_all isDigit fp"
  shows "StrDecimalLiteral ((if neg then js ''-'' else []) @ ip @ js ''.'' @ fp) =
     Some ((neg, Some (of_int (radixValue 10 ip) + of_int (radixValue 10 fp) / 10 ^ length fp)), [])"
proof (cases neg)
  case True
  have "startsWith (0x2D # ip @ 0x2E # fp) (js ''-'')"
    by (simp add: startsWith_def js_def)
  with True show ?thesis
    by (simp add: StrDecimalLiteral_def StrUnsignedDecimalLiteral_fixed [OF assms] js_def)
next
  case False
  with startsWith_digit_string(2,3) [OF assms(1,2)] show ?thesis
    by (simp add: StrDecimalLiteral_def StrUnsignedDecimalLiteral_fixed [OF assms] js_def)
qed

text \<open>
  What \<open>toFixed(2)\<close> writes for a finite number below \<open>10\<^sup>2\<^sup>1\<close> in magnitude is a decimal
  literal with two fraction digits that denotes the magnitude rounded to the nearest
  hundredth, halves rounded up, with the sign of the number.
\<close>

lemma toFixed_2_denotes:
  assumes "x \<noteq> NaN" "\<not> isInfinite x" "\<bar>mathValue x\<bar> < 10 ^ 21"
  shows "StrDecimalLiteral (toFixed 2 x) =
     Some ((mathValue x < 0, Some (of_int \<lfloor>\<bar>mathValue x\<bar> * 100 + 1 / 2\<rfloor> / 100)), [])"
proof -
  define n where "n = \<lfloor>\<bar>mathValue x\<bar> * 100 + 1 / 2\<rfloor>"
  define m where "m = digitsOf n"
  define z where "z = (if length m \<le> 2 then replicate (2 + 1 - length m) 0x30 @ m else m)"
  define ip where "ip = take (length z - 2) z"
  define fp where "fp = drop (length z - 2) z"
  define s where "s = (if mathValue x < 0 then js ''-'' else [])"
  have "0 \<le> n" unfolding n_def by simp
  from digitsOf_props [OF this] have m: "m \<noteq> []" "list_all isDigit m" "radixValue 10 m = n"
    by (simp_all add: m_def)
  have zero: "isDigit 0x30" by (simp add: isDigit_def)
  have z: "3 \<le> length z" "list_all isDigit z" "radixValue 10 z = n"
    using m zero by (auto simp: z_def radixValue_zeros list_all_iff)
  have split: "z = ip @ fp" "length fp = 2" "ip \<noteq> []"
    using z(1) by (auto simp: ip_def fp_def)
  have digits: "list_all isDigit ip" "list_all isDigit fp"
    using z(2) split(1) by auto
  have "toFixed 2 x = s @ ip @ js ''.'' @ fp"
    using assms
    by (simp add: toFixed_def Let_def s_def ip_def fp_def z_def m_def n_def not_le)
  moreover have "StrDecimalLiteral (s @ ip @ js ''.'' @ fp) =
     Some ((mathValue x < 0,
            Some (of_int (radixValue 10 ip) + of_int (radixValue 10 fp) / 10 ^ length fp)), [])"
    unfolding s_def by (rule StrDecimalLiteral_fixed [OF split(3) digits])
  moreover have "(of_int (radixValue 10 ip) + of_int (radixValue 10 fp) / 10 ^ length fp :: rat)
      = of_int n / 100"
  proof -
    have "n = radixValue 10 ip * 100 + radixValue 10 fp"
      using z(3) split(1,2) radixValue_append [of 10 ip fp] by simp
    then show ?thesis by (simp add: split(2) field_simps)
  qed
  ultimately show ?thesis by (simp add: n_def)
qed

section \<open>Whole numbers in double arithmetic\<close>

lemma ndigits_2_bounds:
  "0 < n \<Longrightarrow> 1 \<le> ndigits 2 n \<and> 2 ^ nat (ndigits 2 n - 1) \<le> n \<and> n < 2 ^ nat (ndigits 2 n)"
proof (induction "2 :: int" n rule: ndigits.induct)
  case (1 n)
  show ?case
  proof (cases "n div 2 = 0")
    case True
    with 1(2) have "n = 1" by auto
    then show ?thesis by (simp add: ndigits.simps [of 2 1] ndigits.simps [of 2 0])
  next
    case False
    with 1(2) have pos: "0 < n div 2" by auto
    with 1 have ih: "1 \<le> ndigits 2 (n div 2)"
      "2 ^ nat (ndigits 2 (n div 2) - 1) \<le> n div 2"
      "n div 2 < 2 ^ nat (ndigits 2 (n div 2))"
      by auto
    have d: "ndigits 2 n = 1 + ndigits 2 (n div 2)"
      using 1(2) by (simp add: ndigits.simps [of 2 n])
    have e1: "nat (ndigits 2 n - 1) = Suc (nat (ndigits 2 (n div 2) - 1))"
      using ih(1) d by simp
    have e2: "nat (ndigits 2 n) = Suc (nat (ndigits 2 (n div 2)))"
      using ih(1) d by simp
    define p :: int where "p = 2 ^ nat (ndigits 2 (n div 2) - 1)"
    define q :: int where "q = 2 ^ nat (ndigits 2 (n div 2))"
    have half: "2 * (n div 2) \<le> n" "n < 2 * (n div 2) + 2" by arith+
    from ih(2,3) have "p \<le> n div 2" "n div 2 < q" by (simp_all add: p_def q_def)
    with half have "2 * p \<le> n" "n < 2 * q" by arith+
    then have "2 ^ nat (ndigits 2 n - 1) \<le> n" "n < 2 ^ nat (ndigits 2 n)"
      unfolding e1 e2 p_def q_def by simp_all
    with ih(1) d show ?thesis by simp
  qed
qed


lemma roundHalfEven_of_int: "roundHalfEven (of_int k) = k"
  by (simp add: roundHalfEven_def)

lemma roundMagnitude_of_int:
  assumes "0 < n" "n < 2 ^ 53"
  shows "roundMagnitude (of_int n) = of_int n"
proof -
  define d where "d = ndigits 2 n"
  from ndigits_2_bounds [OF assms(1)]
  have d: "1 \<le> d" "2 ^ nat (d - 1) \<le> n" "n < 2 ^ nat d"
    by (simp_all add: d_def)
  have lt: "(2::int) ^ nat (d - 1) < 2 ^ 53" using d(2) assms(2) by (rule le_less_trans)
  have "nat (d - 1) < 53" by (rule power_less_imp_less_exp [OF _ lt]) simp
  with d(1) have d53: "d \<le> 53" by simp
  define k where "k = nat (53 - d)"
  have ilog: "ilog 2 (of_int n) = d - 1"
    using assms(1) by (simp add: ilog_def d_def)
  have e: "max (d - 1) (- 1022) = d - 1" using d(1) by simp
  have ulp: "(2::rat) powi (d - 53) = 1 / 2 ^ k"
  proof -
    have eq: "d - 53 = - int k" using d53 by (simp add: k_def)
    have "(2::rat) powi (d - 53) = 2 powi (- int k)" by (simp only: eq)
    also have "\<dots> = inverse (2 ^ k)" by (simp add: power_int_minus)
    also have "\<dots> = 1 / 2 ^ k" by (simp add: inverse_eq_divide)
    finally show ?thesis .
  qed
  have rh: "roundHalfEven (rat_of_int n * 2 ^ k) = n * 2 ^ k"
    using roundHalfEven_of_int [of "n * 2 ^ k"] by simp
  show ?thesis
    by (simp add: roundMagnitude_def Let_def ilog e ulp rh)
qed

lemma toDouble_of_int:
  assumes "0 \<le> n" "n < 2 ^ 53"
  shows "toDouble False (of_int n) = Num (of_int n)"
proof (cases "n = 0")
  case True
  then show ?thesis by (simp add: toDouble_def signedZero_def)
next
  case False
  with assms have pos: "0 < n" by simp
  have "(of_int n :: rat) < 2 ^ 1024"
  proof -
    have "n < 2 ^ 1024" using assms(2) by (rule less_trans) simp
    then have "(of_int n :: rat) < of_int (2 ^ 1024)" by (simp only: of_int_less_iff)
    then show ?thesis by simp
  qed
  with pos show ?thesis
    by (simp add: toDouble_def Let_def roundMagnitude_of_int [OF pos assms(2)])
qed

lemma number_add_whole:
  assumes "0 \<le> a" "0 \<le> b" "a + b < 2 ^ 53"
  shows "number_add (Num (of_int a)) (Num (of_int b)) = Num (of_int (a + b))"
proof -
  have "toDouble False (of_int (a + b)) = Num (of_int (a + b))"
    using assms by (intro toDouble_of_int) simp_all
  with assms show ?thesis
    by (simp add: number_add_def isInfinite_def isNegative_def mathValue_def)
qed

lemma wholeAmount_parse:
  assumes "wholeAmount v"
  shows "parseFloat (drop 1 (elementString v)) = Num (of_int (amountOf v))" "0 \<le> amountOf v"
  using assms
  by (auto simp: wholeAmount_def amountOf_def mathValue_def split: number.splits)

lemma rowCommission_nonneg:
  "wholeAmount (element r 2) \<Longrightarrow> wholeAmount (element r 3) \<Longrightarrow> 0 \<le> rowCommission r"
  by (simp add: rowCommission_def wholeAmount_parse(2))

lemma sum_rowCommission_nonneg:
  "\<forall>r \<in> set rs. wholeAmount (element r 2) \<and> wholeAmount (element r 3)
    \<Longrightarrow> 0 \<le> sum_list (map rowCommission rs)"
  by (induction rs) (auto simp: rowCommission_nonneg)

lemma sum_rowCommission_filter:
  "\<forall>r \<in> set rs. wholeAmount (element r 2) \<and> wholeAmount (element r 3)
    \<Longrightarrow> sum_list (map rowCommission (filter P rs)) \<le> sum_list (map rowCommission rs)"
proof (induction rs)
  case Nil
  show ?case by simp
next
  case (Cons r rs)
  then have "0 \<le> rowCommission r" by (simp add: rowCommission_nonneg)
  with Cons show ?case by auto
qed

lemma total_whole:
  assumes "\<forall>r \<in> set rs. wholeAmount (element r 2) \<and> wholeAmount (element r 3)"
    and "0 \<le> t" and "t + sum_list (map rowCommission rs) < 2 ^ 53"
  shows "foldl (\<lambda>total r. number_add
                        (number_add total (parseFloat (drop 1 (elementString (element r 2)))))
                        (parseFloat (drop 1 (elementString (element r 3)))))
           (Num (of_int t)) rs
         = Num (of_int (t + sum_list (map rowCommission rs)))"
  using assms
proof (induction rs arbitrary: t)
  case Nil
  show ?case by simp
next
  case (Cons r rs)
  let ?a = "amountOf (element r 2)" and ?c = "amountOf (element r 3)"
  from Cons.prems(1) have w: "wholeAmount (element r 2)" "wholeAmount (element r 3)"
    and rest: "\<forall>r \<in> set rs. wholeAmount (element r 2) \<and> wholeAmount (element r 3)"
    by simp_all
  note a = wholeAmount_parse [OF w(1)] and c = wholeAmount_parse [OF w(2)]
  have nn: "0 \<le> sum_list (map rowCommission rs)"
    by (rule sum_rowCommission_nonneg [OF rest])
  from Cons.prems(3) have bound: "t + ?a + ?c + sum_list (map rowCommission rs) < 2 ^ 53"
    by (simp add: rowCommission_def [of r])
  have 1: "number_add (Num (of_int t)) (Num (of_int ?a)) = Num (of_int (t + ?a))"
    using Cons.prems(2) a(2) c(2) nn bound by (intro number_add_whole) simp_all
  have 2: "number_add (Num (of_int (t + ?a))) (Num (of_int ?c)) = Num (of_int (t + ?a + ?c))"
    using Cons.prems(2) a(2) c(2) nn bound by (intro number_add_whole) simp_all
  let ?f = "\<lambda>total r. number_add
                        (number_add total (parseFloat (drop 1 (elementString (element r 2)))))
                        (parseFloat (drop 1 (elementString (element r 3))))"
  have step: "?f (Num (of_int t)) r = Num (of_int (t + ?a + ?c))"
    by (simp only: a(1) c(1) 1 2)
  have ih: "foldl ?f (Num (of_int (t + ?a + ?c))) rs
         = Num (of_int (t + ?a + ?c + sum_list (map rowCommission rs)))"
    using rest Cons.prems(2) a(2) c(2) bound by (intro Cons.IH) simp_all
  have sum: "t + ?a + ?c + sum_list (map rowCommission rs)
      = t + sum_list (map rowCommission (r # rs))"
    by (simp add: rowCommission_def [of r])
  have "foldl ?f (Num (of_int t)) (r # rs) = foldl ?f (?f (Num (of_int t)) r) rs"
    by (simp only: foldl_Cons)
  also have "\<dots> = foldl ?f (Num (of_int (t + ?a + ?c))) rs"
    by (simp only: step)
  also note ih
  finally show ?case by (simp only: sum)
qed

lemma brokerTotal_whole:
  assumes "\<forall>r \<in> set rows. wholeAmount (element r 2) \<and> wholeAmount (element r 3)"
    and "sum_list (map rowCommission rows) < 2 ^ 53"
  shows "brokerTotal b rows
    = Num (of_int (sum_list (map rowCommission (filter (\<lambda>r. brokerName r = b) rows))))"
proof -
  have "sum_list (map rowCommission (filter (\<lambda>r. brokerName r = b) rows)) < 2 ^ 53"
    using sum_rowCommission_filter [OF assms(1)] assms(2) by (rule le_less_trans)
  moreover have "\<forall>r \<in> set (filter (\<lambda>r. brokerName r = b) rows).
      wholeAmount (element r 2) \<and> wholeAmount (element r 3)"
    using assms(1) by simp
  ultimately show ?thesis
    unfolding brokerTotal_def
    using total_whole [of "filter (\<lambda>r. brokerName r = b) rows" 0] by simp
qed

section \<open>The per-case commission report\<close>

text \<open>
  Claim C9. When every case row has a CaseValue (a third field), the per-case report is
  produced, it has one data row per case row, in the same order, and row \<open>i\<close> carries the
  BrokerName and the CaseId of case row \<open>i\<close>. (A case row without a third field makes the
  run throw a TypeError.)
\<close>

theorem per_case_report_rows:
  assumes "\<forall>r \<in> set (drop 1 brokerCases). element r 2 \<noteq> Undefined"
  shows "\<exists>out. getCommissionData brokerCases bonusCalculation = Inr out
           \<and> length (drop 1 out) = length (drop 1 brokerCases)
           \<and> (\<forall>i < length (drop 1 brokerCases).
                 element (drop 1 out ! i) 0 = element (drop 1 brokerCases ! i) 0
               \<and> element (drop 1 out ! i) 1 = element (drop 1 brokerCases ! i) 1)"
proof -
  from getCommissionData_rows [OF assms, of bonusCalculation]
  obtain rows where
    out: "getCommissionData brokerCases bonusCalculation
            = Inr (map Str [js ''BrokerName'', js ''CaseId'', js ''BaseCommission'',
                            js ''BonusCommission''] # rows)"
    and rows: "list_all2 (\<lambda>r row. \<exists>gbp. convertCase CURRENCY_LOOKUP r = Inr gbp
                                 \<and> commissionRow bonusCalculation (Some gbp) = Inr row)
               (drop 1 brokerCases) rows"
    by blast
  have len: "length rows = length (drop 1 brokerCases)"
    using list_all2_lengthD [OF rows] by simp
  have "element (rows ! i) 0 = element (drop 1 brokerCases ! i) 0
      \<and> element (rows ! i) 1 = element (drop 1 brokerCases ! i) 1"
    if "i < length (drop 1 brokerCases)" for i
  proof -
    from rows that obtain gbp where
      g: "convertCase CURRENCY_LOOKUP (drop 1 brokerCases ! i) = Inr gbp"
      and c: "commissionRow bonusCalculation (Some gbp) = Inr (rows ! i)"
      by (auto simp: list_all2_conv_all_nth)
    from convertCase_Inr [OF g] obtain v where
      e: "element gbp 0 = element (drop 1 brokerCases ! i) 0"
         "element gbp 1 = element (drop 1 brokerCases ! i) 1"
         "element gbp 2 = Str v"
      by blast
    have "Inr (rows ! i) = commissionRow bonusCalculation (Some gbp)"
      using c by simp
    also note commissionRow_Str [OF e(3), of bonusCalculation]
    finally have "\<exists>rest. rows ! i = element gbp 0 # element gbp 1 # rest"
      by (simp only: sum.inject append_Cons) blast
    then have "element (rows ! i) 0 = element gbp 0" "element (rows ! i) 1 = element gbp 1"
      by auto
    with e(1,2) show ?thesis by simp
  qed
  with out len show ?thesis by simp
qed

theorem per_case_report_rows_witness:
  "\<exists>out. getCommissionData
            [map Str [js ''BrokerName'', js ''CaseId'', js ''CaseValue''],
             map Str [js ''Alice'', js ''17'', POUND @ js ''310000.00''],
             map Str [js ''Bob'', js ''18'', js ''$100.00'']] (Some BONUS_TYPE_1) = Inr out
      \<and> length (drop 1 out) = 2
      \<and> element (drop 1 out ! 0) 0 = Str (js ''Alice'') \<and> element (drop 1 out ! 0) 1 = Str (js ''17'')
      \<and> element (drop 1 out ! 1) 0 = Str (js ''Bob'') \<and> element (drop 1 out ! 1) 1 = Str (js ''18'')"
proof -
  let ?cases = "[map Str [js ''BrokerName'', js ''CaseId'', js ''CaseValue''],
             map Str [js ''Alice'', js ''17'', POUND @ js ''310000.00''],
             map Str [js ''Bob'', js ''18'', js ''$100.00'']]"
  have "\<forall>r \<in> set (drop 1 ?cases). element r 2 \<noteq> Undefined" by simp
  from per_case_report_rows [OF this, of "Some BONUS_TYPE_1"]
  obtain out where o: "getCommissionData ?cases (Some BONUS_TYPE_1) = Inr out"
    "length (drop 1 out) = length (drop 1 ?cases)"
    "\<forall>i < length (drop 1 ?cases).
       element (drop 1 out ! i) 0 = element (drop 1 ?cases ! i) 0
     \<and> element (drop 1 out ! i) 1 = element (drop 1 ?cases ! i) 1"
    by blast
  from o(3) have "element (drop 1 out ! 0) 0 = Str (js ''Alice'')"
    "element (drop 1 out ! 0) 1 = Str (js ''17'')"
    "element (drop 1 out ! 1) 0 = Str (js ''Bob'')"
    "element (drop 1 out ! 1) 1 = Str (js ''18'')"
    by simp_all
  with o(1,2) show ?thesis by simp
qed

lemma number_multiply_NaN: "number_multiply x NaN = NaN"
  by (simp add: number_multiply_def)

lemma toFixed_NaN_product:
  "toFixed 2 (parseFloat (number_toString (number_multiply x (toNumber None)))) = js ''NaN''"
  by (simp add: number_multiply_NaN js_eval cong: let_weak_cong)

lemma bonus_310000_structure1:
  "bonusCalculator (Str (POUND @ js ''310000.00'')) (Num 100000) (Num 10000) = Inr (Num 210)"
  by (simp add: js_eval cong: let_weak_cong)

lemma bonus_310000_structure2:
  "bonusCalculator (Str (POUND @ js ''310000.00'')) (Num 250000) (Num 50000) = Inr (Num 10)"
  by (simp add: js_eval cong: let_weak_cong)

lemma number_toString_220: "number_toString (number_add (Num 210) (Num 10)) = js ''220''"
  by (simp add: js_eval cong: let_weak_cong)

lemma convert_100_dollars:
  "toFixed 2 (parseFloat (number_toString
     (number_multiply (StringToNumber (drop 1 (js ''$100.00''))) (toDouble False (8 / 10)))))
   = js ''80.00''"
  by (simp add: js_eval cong: let_weak_cong)

lemma product_100_dollars:
  "parseFloat (number_toString
     (number_multiply (StringToNumber (drop 1 (js ''$100.00''))) (toDouble False (8 / 10))))
   = Num 80"
  by (simp add: js_eval cong: let_weak_cong)

text \<open>
  Claim C2. Under Structure 2 the bonus column of every row is the sum of two bonuses
  computed independently from the same case value \<open>v\<close>, the CaseValue of the row after
  currency normalisation: the Structure-1 bonus (threshold 100000, target 10000) and the
  Structure-2 bonus (threshold 250000, target 50000). For \<open>\<pounds>310000.00\<close> the column reads
  \<open>\<pounds>220\<close>.
\<close>

theorem structure2_bonus_is_sum:
  assumes "\<forall>r \<in> set (drop 1 brokerCases). element r 2 \<noteq> Undefined"
    and "i < length (drop 1 brokerCases)"
  shows "\<exists>out gbp v b1 b2.
           getCommissionData brokerCases (Some BONUS_TYPE_2) = Inr out
         \<and> convertCase CURRENCY_LOOKUP (drop 1 brokerCases ! i) = Inr gbp
         \<and> element gbp 2 = Str v
         \<and> bonusCalculator (Str v) (Num 100000) (Num 10000) = Inr b1
         \<and> bonusCalculator (Str v) (Num 250000) (Num 50000) = Inr b2
         \<and> element (drop 1 out ! i) 3 = Str (POUND @ number_toString (number_add b1 b2))
         \<and> (v = POUND @ js ''310000.00''
              \<longrightarrow> element (drop 1 out ! i) 3 = Str (POUND @ js ''220''))"
proof -
  from getCommissionData_rows [OF assms(1), of "Some BONUS_TYPE_2"]
  obtain rows where
    out: "getCommissionData brokerCases (Some BONUS_TYPE_2)
            = Inr (map Str [js ''BrokerName'', js ''CaseId'', js ''BaseCommission'',
                            js ''BonusCommission''] # rows)"
    and rows: "list_all2 (\<lambda>r row. \<exists>gbp. convertCase CURRENCY_LOOKUP r = Inr gbp
                                 \<and> commissionRow (Some BONUS_TYPE_2) (Some gbp) = Inr row)
               (drop 1 brokerCases) rows"
    by blast
  from rows assms(2) obtain gbp where
    g: "convertCase CURRENCY_LOOKUP (drop 1 brokerCases ! i) = Inr gbp"
    and c: "commissionRow (Some BONUS_TYPE_2) (Some gbp) = Inr (rows ! i)"
    by (auto simp: list_all2_conv_all_nth)
  from convertCase_Inr(3) [OF g] obtain v where v: "element gbp 2 = Str v" ..
  obtain b1 where b1: "bonusCalculator (Str v) (Num 100000) (Num 10000) = Inr b1"
    using bonusCalculator_total by blast
  obtain b2 where b2: "bonusCalculator (Str v) (Num 250000) (Num 50000) = Inr b2"
    using bonusCalculator_total by blast
  have t: "truthy (Some BONUS_TYPE_2)"
    by (simp add: truthy_def BONUS_TYPE_2_def isZero_def)
  have "Inr (rows ! i) = commissionRow (Some BONUS_TYPE_2) (Some gbp)"
    using c by simp
  also note commissionRow_Str [OF v, of "Some BONUS_TYPE_2"]
  finally have row: "rows ! i = [element gbp 0, element gbp 1,
      Str (POUND @ number_toString BASE_COMMISSION),
      Str (POUND @ number_toString (number_add b1 b2))]"
    using t b1 b2
    by (simp add: THRESHOLD_AMOUNT_1_def THRESHOLD_AMOUNT_2_def TARGET_AMOUNT_1_def
        TARGET_AMOUNT_2_def)
  then have col: "element (rows ! i) 3 = Str (POUND @ number_toString (number_add b1 b2))"
    by simp
  have "element (rows ! i) 3 = Str (POUND @ js ''220'')" if "v = POUND @ js ''310000.00''"
  proof -
    from that b1 b2 have "b1 = Num 210" "b2 = Num 10"
      by (simp_all add: bonus_310000_structure1 bonus_310000_structure2)
    with col show ?thesis by (simp add: number_toString_220)
  qed
  with out g v b1 b2 col show ?thesis by simp
qed

theorem structure2_bonus_is_sum_witness:
  "\<exists>out. getCommissionData
            [map Str [js ''BrokerName'', js ''CaseId'', js ''CaseValue''],
             map Str [js ''Alice'', js ''17'', POUND @ js ''310000.00'']] (Some BONUS_TYPE_2) = Inr out
      \<and> element (drop 1 out ! 0) 3 = Str (POUND @ js ''220'')"
proof -
  let ?cases = "[map Str [js ''BrokerName'', js ''CaseId'', js ''CaseValue''],
             map Str [js ''Alice'', js ''17'', POUND @ js ''310000.00'']]"
  have wf: "\<forall>r \<in> set (drop 1 ?cases). element r 2 \<noteq> Undefined" by simp
  have i: "0 < length (drop 1 ?cases)" by simp
  from structure2_bonus_is_sum [OF wf i]
  obtain out gbp v where
    o: "getCommissionData ?cases (Some BONUS_TYPE_2) = Inr out"
    and g: "convertCase CURRENCY_LOOKUP (drop 1 ?cases ! 0) = Inr gbp"
    and v: "element gbp 2 = Str v"
    and e: "v = POUND @ js ''310000.00'' \<longrightarrow> element (drop 1 out ! 0) 3 = Str (POUND @ js ''220'')"
    by blast
  have "convertCase CURRENCY_LOOKUP (drop 1 ?cases ! 0)
          = Inr (map Str [js ''Alice'', js ''17'', POUND @ js ''310000.00''])"
    by (simp add: convertCase_def startsWith_def POUND_def)
  with g v have "v = POUND @ js ''310000.00''" by auto
  with o e show ?thesis by blast
qed

section \<open>The currency normalizer\<close>

lemma convertCasesToGBP_row:
  assumes wf: "\<forall>r \<in> set (drop 1 brokerCases). element r 2 \<noteq> Undefined"
  shows "\<exists>out. convertCasesToGBP brokerCases L = Inr out
           \<and> length out = Suc (length (drop 1 brokerCases))
           \<and> out ! 0 = (case brokerCases of [] \<Rightarrow> None | h # rest \<Rightarrow> Some h)
           \<and> (\<forall>j < length (drop 1 brokerCases).
                 \<exists>gbp. drop 1 out ! j = Some gbp
                      \<and> convertCase L (drop 1 brokerCases ! j) = Inr gbp)"
proof -
  from convertCasesToGBP_rows [OF wf, of L]
  obtain gbps where
    c: "convertCasesToGBP brokerCases L
          = Inr ((case brokerCases of [] \<Rightarrow> None | h # rest \<Rightarrow> Some h) # map Some gbps)"
    and l: "list_all2 (\<lambda>r gbp. convertCase L r = Inr gbp) (drop 1 brokerCases) gbps"
    by blast
  have len: "length gbps = length (drop 1 brokerCases)"
    using list_all2_lengthD [OF l] by simp
  have "\<exists>gbp. map Some gbps ! j = Some gbp \<and> convertCase L (drop 1 brokerCases ! j) = Inr gbp"
    if "j < length (drop 1 brokerCases)" for j
    using l that len by (auto simp: list_all2_conv_all_nth)
  with c len show ?thesis by simp
qed

text \<open>
  Claim C3. For a case row \<open>r\<close> with CaseValue \<open>v\<close>: when \<open>v\<close> starts with \<open>\<pounds>\<close> the row
  comes out of the normalizer unchanged; otherwise, with \<open>m\<close> the multiplier the lookup
  holds for the first character of \<open>v\<close>, the row comes out as BrokerName, CaseId and \<open>\<pounds>\<close>
  followed by the product of the numeric remainder and \<open>m\<close>, written with two decimals by
  \<open>toFixed(2)\<close>. The value \<open>$100.00\<close> under the lookup \<open>{ "$": 0.8 }\<close> comes out as
  \<open>\<pounds>80.00\<close>. The header row is passed through. When the product \<open>p\<close> (as \<open>parseFloat\<close>
  reads it back) is a finite number below \<open>10\<^sup>2\<^sup>1\<close> in magnitude, the amount written
  is a decimal literal with the sign of \<open>p\<close> and the value of \<open>\<bar>p\<bar>\<close> rounded to the nearest
  hundredth, a tie going away from zero.
\<close>

theorem normalizer_converts_row:
  assumes "\<forall>r \<in> set (drop 1 brokerCases). element r 2 \<noteq> Undefined"
    and "i < length (drop 1 brokerCases)"
    and "r = drop 1 brokerCases ! i"
    and "element r 2 = Str v"
  shows "\<exists>out. convertCasesToGBP brokerCases conversionLookup = Inr out
           \<and> out ! 0 = (case brokerCases of [] \<Rightarrow> None | h # rest \<Rightarrow> Some h)
           \<and> (startsWith v POUND \<longrightarrow> drop 1 out ! i = Some r)
           \<and> (\<not> startsWith v POUND \<longrightarrow> conversionLookup (take 1 v) = Some m \<longrightarrow>
                drop 1 out ! i =
                  Some [element r 0, element r 1,
                        Str (POUND @ toFixed 2 (parseFloat (number_toString
                               (number_multiply (StringToNumber (drop 1 v)) m))))])
           \<and> (v = js ''$100.00'' \<longrightarrow> conversionLookup (js ''$'') = Some (toDouble False (8 / 10)) \<longrightarrow>
                drop 1 out ! i = Some [element r 0, element r 1, Str (POUND @ js ''80.00'')])
           \<and> (\<not> startsWith v POUND \<longrightarrow> conversionLookup (take 1 v) = Some m \<longrightarrow>
                (let p = parseFloat (number_toString
                           (number_multiply (StringToNumber (drop 1 v)) m))
                 in p \<noteq> NaN \<longrightarrow> \<not> isInfinite p \<longrightarrow> \<bar>mathValue p\<bar> < 10 ^ 21 \<longrightarrow>
                    (\<exists>amount.
                        drop 1 out ! i = Some [element r 0, element r 1, Str (POUND @ amount)]
                      \<and> StrDecimalLiteral amount =
                          Some ((mathValue p < 0,
                                 Some (of_int \<lfloor>\<bar>mathValue p\<bar> * 100 + 1 / 2\<rfloor> / 100)), []))))"
proof -
  from convertCasesToGBP_row [OF assms(1), of conversionLookup] assms(2)
  obtain out gbp where
    out: "convertCasesToGBP brokerCases conversionLookup = Inr out"
    and hd: "out ! 0 = (case brokerCases of [] \<Rightarrow> None | h # rest \<Rightarrow> Some h)"
    and row: "drop 1 out ! i = Some gbp"
    and gbp: "convertCase conversionLookup (drop 1 brokerCases ! i) = Inr gbp"
    by blast
  from gbp assms(3) have "Inr gbp = convertCase conversionLookup r" by simp
  also note convertCase_Str [OF assms(4), of conversionLookup]
  finally have g: "gbp = (if startsWith v POUND then r
          else [element r 0, element r 1,
                Str (POUND @ toFixed 2 (parseFloat (number_toString
                  (number_multiply (StringToNumber (drop 1 v))
                     (toNumber (conversionLookup (take 1 v)))))))])"
    by (simp only: sum.inject)
  have 1: "drop 1 out ! i = Some r" if "startsWith v POUND"
    using that g row by simp
  have 2: "drop 1 out ! i =
                  Some [element r 0, element r 1,
                        Str (POUND @ toFixed 2 (parseFloat (number_toString
                               (number_multiply (StringToNumber (drop 1 v)) m))))]"
    if "\<not> startsWith v POUND" "conversionLookup (take 1 v) = Some m"
    using that g row by (simp add: toNumber_def)
  have 3: "drop 1 out ! i = Some [element r 0, element r 1, Str (POUND @ js ''80.00'')]"
    if "v = js ''$100.00''" "conversionLookup (js ''$'') = Some (toDouble False (8 / 10))"
  proof -
    from that(1) have ns: "\<not> startsWith v POUND" and tk: "take 1 v = js ''$''"
      by (simp_all add: startsWith_def POUND_def js_def)
    from g ns have "gbp = [element r 0, element r 1,
                Str (POUND @ toFixed 2 (parseFloat (number_toString
                  (number_multiply (StringToNumber (drop 1 v))
                     (toNumber (conversionLookup (take 1 v)))))))]"
      by (simp only: if_False)
    moreover have "conversionLookup (take 1 v) = Some (toDouble False (8 / 10))"
      unfolding tk by (rule that(2))
    ultimately have "gbp = [element r 0, element r 1,
                Str (POUND @ toFixed 2 (parseFloat (number_toString
                  (number_multiply (StringToNumber (drop 1 v)) (toDouble False (8 / 10))))))]"
      by (simp only: toNumber_def option.case)
    then have "gbp = [element r 0, element r 1, Str (POUND @ js ''80.00'')]"
      unfolding that(1) convert_100_dollars .
    with row show ?thesis by simp
  qed
  have 4: "\<exists>amount.
              drop 1 out ! i = Some [element r 0, element r 1, Str (POUND @ amount)]
            \<and> StrDecimalLiteral amount =
                Some ((mathValue p < 0, Some (of_int \<lfloor>\<bar>mathValue p\<bar> * 100 + 1 / 2\<rfloor> / 100)), [])"
    if "\<not> startsWith v POUND" "conversionLookup (take 1 v) = Some m"
      and "p = parseFloat (number_toString (number_multiply (StringToNumber (drop 1 v)) m))"
      and "p \<noteq> NaN" "\<not> isInfinite p" "\<bar>mathValue p\<bar> < 10 ^ 21" for p
  proof -
    from 2 [OF that(1,2)] that(3)
    have "drop 1 out ! i = Some [element r 0, element r 1, Str (POUND @ toFixed 2 p)]"
      by simp
    with toFixed_2_denotes [OF that(4,5,6)] show ?thesis by blast
  qed
  from 4 have 5: "\<not> startsWith v POUND \<longrightarrow> conversionLookup (take 1 v) = Some m \<longrightarrow>
                (let p = parseFloat (number_toString
                           (number_multiply (StringToNumber (drop 1 v)) m))
                 in p \<noteq> NaN \<longrightarrow> \<not> isInfinite p \<longrightarrow> \<bar>mathValue p\<bar> < 10 ^ 21 \<longrightarrow>
                    (\<exists>amount.
                        drop 1 out ! i = Some [element r 0, element r 1, Str (POUND @ amount)]
                      \<and> StrDecimalLiteral amount =
                          Some ((mathValue p < 0,
                                 Some (of_int \<lfloor>\<bar>mathValue p\<bar> * 100 + 1 / 2\<rfloor> / 100)), [])))"
    unfolding Let_def by blast
  from out hd 1 2 3 5 show ?thesis by blast
qed

theorem normalizer_converts_row_witness:
  "\<exists>out. convertCasesToGBP
            [map Str [js ''BrokerName'', js ''CaseId'', js ''CaseValue''],
             map Str [js ''Alice'', js ''17'', POUND @ js ''310000.00''],
             map Str [js ''Bob'', js ''18'', js ''$100.00'']] CURRENCY_LOOKUP = Inr out
      \<and> out ! 0 = Some (map Str [js ''BrokerName'', js ''CaseId'', js ''CaseValue''])
      \<and> drop 1 out ! 0 = Some (map Str [js ''Alice'', js ''17'', POUND @ js ''310000.00''])
      \<and> drop 1 out ! 1 = Some (map Str [js ''Bob'', js ''18'', POUND @ js ''80.00''])
      \<and> StrDecimalLiteral (js ''80.00'') = Some ((False, Some 80), [])"
proof -
  let ?cases = "[map Str [js ''BrokerName'', js ''CaseId'', js ''CaseValue''],
             map Str [js ''Alice'', js ''17'', POUND @ js ''310000.00''],
             map Str [js ''Bob'', js ''18'', js ''$100.00'']]"
  have wf: "\<forall>r \<in> set (drop 1 ?cases). element r 2 \<noteq> Undefined" by simp
  have rate: "CURRENCY_LOOKUP (js ''$'') = Some (toDouble False (8 / 10))"
    by (simp add: CURRENCY_LOOKUP_def)
  have a: "startsWith (POUND @ js ''310000.00'') POUND"
    by (simp add: startsWith_def POUND_def)
  from normalizer_converts_row [OF wf, of 0 "map Str [js ''Alice'', js ''17'', POUND @ js ''310000.00'']"
      "POUND @ js ''310000.00''" CURRENCY_LOOKUP] a
  obtain out where o: "convertCasesToGBP ?cases CURRENCY_LOOKUP = Inr out"
    "out ! 0 = Some (map Str [js ''BrokerName'', js ''CaseId'', js ''CaseValue''])"
    "drop 1 out ! 0 = Some (map Str [js ''Alice'', js ''17'', POUND @ js ''310000.00''])"
    by auto
  from normalizer_converts_row [OF wf, of 1 "map Str [js ''Bob'', js ''18'', js ''$100.00'']"
      "js ''$100.00''" CURRENCY_LOOKUP] rate
  obtain out' where o': "convertCasesToGBP ?cases CURRENCY_LOOKUP = Inr out'"
    "drop 1 out' ! 1 = Some (map Str [js ''Bob'', js ''18'', POUND @ js ''80.00''])"
    by auto
  have b: "\<not> startsWith (js ''$100.00'') POUND"
    by (simp add: startsWith_def POUND_def js_def)
  have rate': "CURRENCY_LOOKUP (take 1 (js ''$100.00'')) = Some (toDouble False (8 / 10))"
    by (simp add: CURRENCY_LOOKUP_def js_def)
  have fin: "Num 80 \<noteq> NaN" "\<not> isInfinite (Num 80)" "\<bar>mathValue (Num 80)\<bar> < 10 ^ 21"
    by (simp_all add: isInfinite_def mathValue_def)
  have val: "(mathValue (Num 80) < 0,
              Some (of_int \<lfloor>\<bar>mathValue (Num 80)\<bar> * 100 + 1 / 2\<rfloor> / 100 :: rat))
             = (False, Some 80)"
    by (simp add: mathValue_def floor_rat_numeral)
  let ?bob = "map Str [js ''Bob'', js ''18'', js ''$100.00'']"
  have i1: "1 < length (drop 1 ?cases)" by simp
  have i2: "?bob = drop 1 ?cases ! 1" by simp
  have i3: "element ?bob 2 = Str (js ''$100.00'')" by simp
  from normalizer_converts_row [OF wf i1 i2 i3, of CURRENCY_LOOKUP "toDouble False (8 / 10)"]
  obtain out'' where o'': "convertCasesToGBP ?cases CURRENCY_LOOKUP = Inr out''"
    and d: "\<not> startsWith (js ''$100.00'') POUND \<longrightarrow>
            CURRENCY_LOOKUP (take 1 (js ''$100.00'')) = Some (toDouble False (8 / 10)) \<longrightarrow>
            (let p = parseFloat (number_toString
                       (number_multiply (StringToNumber (drop 1 (js ''$100.00'')))
                          (toDouble False (8 / 10))))
             in p \<noteq> NaN \<longrightarrow> \<not> isInfinite p \<longrightarrow> \<bar>mathValue p\<bar> < 10 ^ 21 \<longrightarrow>
                (\<exists>amount.
                    drop 1 out'' ! 1 = Some [element ?bob 0, element ?bob 1, Str (POUND @ amount)]
                  \<and> StrDecimalLiteral amount =
                      Some ((mathValue p < 0,
                             Some (of_int \<lfloor>\<bar>mathValue p\<bar> * 100 + 1 / 2\<rfloor> / 100)), [])))"
    by blast
  from d b rate' have "let p = Num 80
             in p \<noteq> NaN \<longrightarrow> \<not> isInfinite p \<longrightarrow> \<bar>mathValue p\<bar> < 10 ^ 21 \<longrightarrow>
                (\<exists>amount.
                    drop 1 out'' ! 1 = Some [element ?bob 0, element ?bob 1, Str (POUND @ amount)]
                  \<and> StrDecimalLiteral amount =
                      Some ((mathValue p < 0,
                             Some (of_int \<lfloor>\<bar>mathValue p\<bar> * 100 + 1 / 2\<rfloor> / 100)), []))"
    unfolding product_100_dollars by blast
  then have "\<exists>amount.
        drop 1 out'' ! 1 = Some [element ?bob 0, element ?bob 1, Str (POUND @ amount)]
      \<and> StrDecimalLiteral amount =
          Some ((mathValue (Num 80) < 0,
                 Some (of_int \<lfloor>\<bar>mathValue (Num 80)\<bar> * 100 + 1 / 2\<rfloor> / 100)), [])"
    unfolding Let_def using fin by blast
  then obtain amount where
    am: "drop 1 out'' ! 1 = Some [element ?bob 0, element ?bob 1, Str (POUND @ amount)]"
    and lit: "StrDecimalLiteral amount = Some ((False, Some 80), [])"
    unfolding val by blast
  from o'(1) o'' have "out'' = out'" by simp
  with am o'(2) have "amount = js ''80.00''" by simp
  with lit have "StrDecimalLiteral (js ''80.00'') = Some ((False, Some 80), [])" by simp
  with o o' show ?thesis by simp
qed

lemma convertCase_lookup:
  assumes "element r 2 = Str w"
  shows "convertCase L r =
     Inr (if startsWith w POUND then r
          else [element r 0, element r 1,
                Str (POUND @ (case L (take 1 w) of
                       None \<Rightarrow> js ''NaN''
                     | Some m \<Rightarrow> toFixed 2 (parseFloat (number_toString
                         (number_multiply (StringToNumber (drop 1 w)) m)))))])"
proof (cases "L (take 1 w)")
  case None
  show ?thesis
    unfolding convertCase_Str [OF assms] None by (simp only: toFixed_NaN_product option.case)
next
  case (Some m)
  show ?thesis
    unfolding convertCase_Str [OF assms] Some by (simp only: toNumber_def option.case)
qed

text \<open>
  Claim C7. A case row whose currency symbol has no entry in the lookup does not stop the
  normalizer: when every case row has a CaseValue the normalizer returns, with one row
  per case row, and that row comes out as BrokerName, CaseId and \<open>\<pounds>NaN\<close>. The other rows
  are processed as they are without it: a row whose CaseValue starts with \<open>\<pounds>\<close> comes out
  unchanged, a row whose symbol has the multiplier \<open>m\<close> comes out with \<open>\<pounds>\<close> and the product
  of the numeric remainder and \<open>m\<close> written by \<open>toFixed(2)\<close> (\<open>$100.00\<close> at the multiplier
  0.8 as \<open>\<pounds>80.00\<close>), and every row comes out exactly as it would if it were the only
  case in the input.
\<close>

theorem unknown_currency_gives_NaN:
  assumes "\<forall>r \<in> set (drop 1 brokerCases). element r 2 \<noteq> Undefined"
    and "i < length (drop 1 brokerCases)"
    and "r = drop 1 brokerCases ! i"
    and "element r 2 = Str v"
    and "\<not> startsWith v POUND"
    and "conversionLookup (take 1 v) = None"
  shows "\<exists>out. convertCasesToGBP brokerCases conversionLookup = Inr out
           \<and> length (drop 1 out) = length (drop 1 brokerCases)
           \<and> drop 1 out ! i = Some [element r 0, element r 1, Str (POUND @ js ''NaN'')]
           \<and> (\<forall>j < length (drop 1 brokerCases).
                 convertCasesToGBP [h, drop 1 brokerCases ! j] conversionLookup
                   = Inr [Some h, drop 1 out ! j])
           \<and> (\<forall>j < length (drop 1 brokerCases). \<forall>w.
                 element (drop 1 brokerCases ! j) 2 = Str w \<longrightarrow>
                 drop 1 out ! j =
                   Some (if startsWith w POUND then drop 1 brokerCases ! j
                         else [element (drop 1 brokerCases ! j) 0,
                               element (drop 1 brokerCases ! j) 1,
                               Str (POUND @ (case conversionLookup (take 1 w) of
                                      None \<Rightarrow> js ''NaN''
                                    | Some m \<Rightarrow> toFixed 2 (parseFloat (number_toString
                                        (number_multiply (StringToNumber (drop 1 w)) m)))))]))
           \<and> (\<forall>j < length (drop 1 brokerCases).
                 element (drop 1 brokerCases ! j) 2 = Str (js ''$100.00'') \<longrightarrow>
                 conversionLookup (js ''$'') = Some (toDouble False (8 / 10)) \<longrightarrow>
                 drop 1 out ! j =
                   Some [element (drop 1 brokerCases ! j) 0,
                         element (drop 1 brokerCases ! j) 1, Str (POUND @ js ''80.00'')])"
proof -
  from convertCasesToGBP_row [OF assms(1), of conversionLookup]
  obtain out where
    out: "convertCasesToGBP brokerCases conversionLookup = Inr out"
    and len: "length out = Suc (length (drop 1 brokerCases))"
    and rows: "\<forall>j < length (drop 1 brokerCases).
                 \<exists>gbp. drop 1 out ! j = Some gbp
                      \<and> convertCase conversionLookup (drop 1 brokerCases ! j) = Inr gbp"
    by blast
  from rows assms(2,3) obtain gbp where
    row: "drop 1 out ! i = Some gbp" and gbp: "convertCase conversionLookup r = Inr gbp"
    by blast
  from gbp have "Inr gbp = convertCase conversionLookup r" by simp
  also note convertCase_Str [OF assms(4), of conversionLookup]
  finally have "gbp = [element r 0, element r 1, Str (POUND @ js ''NaN'')]"
    using assms(5,6) by (simp add: toFixed_NaN_product)
  with row have 1: "drop 1 out ! i = Some [element r 0, element r 1, Str (POUND @ js ''NaN'')]"
    by simp
  have 2: "convertCasesToGBP [h, drop 1 brokerCases ! j] conversionLookup
             = Inr [Some h, drop 1 out ! j]"
    if "j < length (drop 1 brokerCases)" for j
  proof -
    from rows that obtain g where "drop 1 out ! j = Some g"
      "convertCase conversionLookup (drop 1 brokerCases ! j) = Inr g"
      by blast
    then show ?thesis by (simp add: convertCasesToGBP_def)
  qed
  have 3: "drop 1 out ! j =
             Some (if startsWith w POUND then drop 1 brokerCases ! j
                   else [element (drop 1 brokerCases ! j) 0,
                         element (drop 1 brokerCases ! j) 1,
                         Str (POUND @ (case conversionLookup (take 1 w) of
                                None \<Rightarrow> js ''NaN''
                              | Some m \<Rightarrow> toFixed 2 (parseFloat (number_toString
                                  (number_multiply (StringToNumber (drop 1 w)) m)))))])"
    if "j < length (drop 1 brokerCases)" "element (drop 1 brokerCases ! j) 2 = Str w" for j w
  proof -
    from rows that(1) obtain g where g: "drop 1 out ! j = Some g"
      "convertCase conversionLookup (drop 1 brokerCases ! j) = Inr g"
      by blast
    from g(2) have "Inr g = convertCase conversionLookup (drop 1 brokerCases ! j)" by simp
    also note convertCase_lookup [OF that(2), of conversionLookup]
    finally have "g = (if startsWith w POUND then drop 1 brokerCases ! j
                   else [element (drop 1 brokerCases ! j) 0,
                         element (drop 1 brokerCases ! j) 1,
                         Str (POUND @ (case conversionLookup (take 1 w) of
                                None \<Rightarrow> js ''NaN''
                              | Some m \<Rightarrow> toFixed 2 (parseFloat (number_toString
                                  (number_multiply (StringToNumber (drop 1 w)) m)))))])"
      by (simp only: sum.inject)
    with g(1) show ?thesis by (simp only:)
  qed
  have 4: "drop 1 out ! j =
             Some [element (drop 1 brokerCases ! j) 0,
                   element (drop 1 brokerCases ! j) 1, Str (POUND @ js ''80.00'')]"
    if "j < length (drop 1 brokerCases)"
      "element (drop 1 brokerCases ! j) 2 = Str (js ''$100.00'')"
      "conversionLookup (js ''$'') = Some (toDouble False (8 / 10))" for j
  proof -
    have ns: "startsWith (js ''$100.00'') POUND = False"
      and tk: "take 1 (js ''$100.00'') = js ''$''"
      by (simp_all add: startsWith_def POUND_def js_def)
    from 3 [OF that(1,2)] show ?thesis
      unfolding ns if_False tk that(3) option.case convert_100_dollars .
  qed
  show ?thesis
  proof (intro exI conjI allI impI)
    show "convertCasesToGBP brokerCases conversionLookup = Inr out" by (rule out)
    show "length (drop 1 out) = length (drop 1 brokerCases)" using len by simp
    show "drop 1 out ! i = Some [element r 0, element r 1, Str (POUND @ js ''NaN'')]"
      by (rule 1)
    show "convertCasesToGBP [h, drop 1 brokerCases ! j] conversionLookup
             = Inr [Some h, drop 1 out ! j]"
      if "j < length (drop 1 brokerCases)" for j
      using that by (rule 2)
    show "drop 1 out ! j =
             Some (if startsWith w POUND then drop 1 brokerCases ! j
                   else [element (drop 1 brokerCases ! j) 0,
                         element (drop 1 brokerCases ! j) 1,
                         Str (POUND @ (case conversionLookup (take 1 w) of
                                None \<Rightarrow> js ''NaN''
                              | Some m \<Rightarrow> toFixed 2 (parseFloat (number_toString
                                  (number_multiply (StringToNumber (drop 1 w)) m)))))])"
      if "j < length (drop 1 brokerCases)" "element (drop 1 brokerCases ! j) 2 = Str w" for j w
      using that by (rule 3)
    show "drop 1 out ! j =
             Some [element (drop 1 brokerCases ! j) 0,
                   element (drop 1 brokerCases ! j) 1, Str (POUND @ js ''80.00'')]"
      if "j < length (drop 1 brokerCases)"
        "element (drop 1 brokerCases ! j) 2 = Str (js ''$100.00'')"
        "conversionLookup (js ''$'') = Some (toDouble False (8 / 10))" for j
      using that by (rule 4)
  qed
qed

theorem unknown_currency_gives_NaN_witness:
  "\<exists>out. convertCasesToGBP
            [map Str [js ''BrokerName'', js ''CaseId'', js ''CaseValue''],
             map Str [js ''Carol'', js ''19'', 0x20AC # js ''50.00''],
             map Str [js ''Bob'', js ''18'', js ''$100.00''],
             map Str [js ''Alice'', js ''17'', POUND @ js ''310000.00'']] CURRENCY_LOOKUP = Inr out
      \<and> length (drop 1 out) = 3
      \<and> drop 1 out ! 0 = Some (map Str [js ''Carol'', js ''19'', POUND @ js ''NaN''])
      \<and> drop 1 out ! 1 = Some (map Str [js ''Bob'', js ''18'', POUND @ js ''80.00''])
      \<and> drop 1 out ! 2 = Some (map Str [js ''Alice'', js ''17'', POUND @ js ''310000.00''])
      \<and> convertCasesToGBP [map Str [js ''BrokerName'', js ''CaseId'', js ''CaseValue''],
                            map Str [js ''Bob'', js ''18'', js ''$100.00'']] CURRENCY_LOOKUP
           = Inr [Some (map Str [js ''BrokerName'', js ''CaseId'', js ''CaseValue'']), drop 1 out ! 1]"
proof -
  let ?h = "map Str [js ''BrokerName'', js ''CaseId'', js ''CaseValue'']"
  let ?carol = "map Str [js ''Carol'', js ''19'', 0x20AC # js ''50.00'']"
  let ?bob = "map Str [js ''Bob'', js ''18'', js ''$100.00'']"
  let ?alice = "map Str [js ''Alice'', js ''17'', POUND @ js ''310000.00'']"
  let ?cases = "[?h, ?carol, ?bob, ?alice]"
  have wf: "\<forall>r \<in> set (drop 1 ?cases). element r 2 \<noteq> Undefined" by simp
  have i1: "0 < length (drop 1 ?cases)" by simp
  have i2: "?carol = drop 1 ?cases ! 0" by simp
  have i3: "element ?carol 2 = Str (0x20AC # js ''50.00'')" by simp
  have a: "\<not> startsWith (0x20AC # js ''50.00'') POUND"
    by (simp add: startsWith_def POUND_def)
  have b: "CURRENCY_LOOKUP (take 1 (0x20AC # js ''50.00'')) = None"
    by (simp add: CURRENCY_LOOKUP_def js_def)
  have rate: "CURRENCY_LOOKUP (js ''$'') = Some (toDouble False (8 / 10))"
    by (simp add: CURRENCY_LOOKUP_def)
  have pound: "startsWith (POUND @ js ''310000.00'') POUND = True"
    by (simp add: startsWith_def POUND_def)
  have j1: "1 < length (drop 1 ?cases)" and j2: "2 < length (drop 1 ?cases)" by simp_all
  have bobv: "element (drop 1 ?cases ! 1) 2 = Str (js ''$100.00'')" by simp
  have alicev: "element (drop 1 ?cases ! 2) 2 = Str (POUND @ js ''310000.00'')" by simp
  note inst = unknown_currency_gives_NaN
    [of ?cases 0 ?carol "0x20AC # js ''50.00''" CURRENCY_LOOKUP ?h]
  from inst [OF wf i1 i2 i3 a b]
  obtain out where o: "convertCasesToGBP ?cases CURRENCY_LOOKUP = Inr out"
    "length (drop 1 out) = length (drop 1 ?cases)"
    "drop 1 out ! 0 = Some [element ?carol 0, element ?carol 1, Str (POUND @ js ''NaN'')]"
    "\<forall>j < length (drop 1 ?cases).
        convertCasesToGBP [?h, drop 1 ?cases ! j] CURRENCY_LOOKUP = Inr [Some ?h, drop 1 out ! j]"
    "\<forall>j < length (drop 1 ?cases). \<forall>w.
        element (drop 1 ?cases ! j) 2 = Str w \<longrightarrow>
        drop 1 out ! j =
          Some (if startsWith w POUND then drop 1 ?cases ! j
                else [element (drop 1 ?cases ! j) 0, element (drop 1 ?cases ! j) 1,
                      Str (POUND @ (case CURRENCY_LOOKUP (take 1 w) of
                             None \<Rightarrow> js ''NaN''
                           | Some m \<Rightarrow> toFixed 2 (parseFloat (number_toString
                               (number_multiply (StringToNumber (drop 1 w)) m)))))])"
    "\<forall>j < length (drop 1 ?cases).
        element (drop 1 ?cases ! j) 2 = Str (js ''$100.00'') \<longrightarrow>
        CURRENCY_LOOKUP (js ''$'') = Some (toDouble False (8 / 10)) \<longrightarrow>
        drop 1 out ! j =
          Some [element (drop 1 ?cases ! j) 0, element (drop 1 ?cases ! j) 1,
                Str (POUND @ js ''80.00'')]"
    by blast
  from o(2) have 1: "length (drop 1 out) = 3" by simp
  from o(3) have 2: "drop 1 out ! 0 = Some (map Str [js ''Carol'', js ''19'', POUND @ js ''NaN''])"
    by simp
  from o(6) [rule_format, OF j1 bobv rate]
  have 3: "drop 1 out ! 1 = Some (map Str [js ''Bob'', js ''18'', POUND @ js ''80.00''])"
    by simp
  from o(5) [rule_format, OF j2 alicev]
  have "drop 1 out ! 2 = Some (drop 1 ?cases ! 2)"
    unfolding pound if_True .
  then have 4: "drop 1 out ! 2 = Some (map Str [js ''Alice'', js ''17'', POUND @ js ''310000.00''])"
    by simp
  from o(4) [rule_format, OF j1]
  have 5: "convertCasesToGBP [?h, ?bob] CURRENCY_LOOKUP = Inr [Some ?h, drop 1 out ! 1]"
    by simp
  from o(1) 1 2 3 4 5 show ?thesis by simp
qed

section \<open>The bonus calculator at small excesses\<close>

text \<open>
  Claim C1, at the case value \<open>\<pounds>100000.01\<close> with threshold 100000 and target 10000. The
  excess over the threshold is one penny, so no whole multiple of the target is reached
  and the claim gives a bonus of 0. The quotient \<open>(caseValueAsFloat - threshold) / target\<close>
  is below \<open>10\<^sup>-\<^sup>6\<close>; \<open>parseInt\<close> first turns it into the string \<open>9.99999999476131e-7\<close> and
  then reads the leading digit, so the function returns \<open>9 * 10 = 90\<close>. The same happens in
  the report for the case value \<open>$125000.01\<close>, which the normalizer turns into
  \<open>\<pounds>100000.01\<close>.
\<close>

theorem bonus_one_penny_over_threshold:
  "bonusCalculator (Str (POUND @ js ''100000.01'')) (Num 100000) (Num 10000) = Inr (Num 90)
   \<and> number_toString
        (number_divide (number_subtract (parseFloat (js ''100000.01'')) (Num 100000)) (Num 10000))
       = js ''9.99999999476131e-7''
   \<and> getCommissionData
        [map Str [js ''BrokerName'', js ''CaseId'', js ''CaseValue''],
         map Str [js ''Bob'', js ''18'', js ''$125000.01'']] (Some BONUS_TYPE_1)
       = Inr [map Str [js ''BrokerName'', js ''CaseId'', js ''BaseCommission'', js ''BonusCommission''],
              map Str [js ''Bob'', js ''18'', POUND @ js ''125'', POUND @ js ''90'']]"
proof -
  have a: "parseFloat (js ''100000.01'') = Num (6871948360794767 / 68719476736)"
    by (simp add: js_eval cong: let_weak_cong)
  have b: "number_subtract (Num (6871948360794767 / 68719476736)) (Num 100000)
             = Num (687194767 / 68719476736)"
    by (simp add: js_eval cong: let_weak_cong)
  have c: "number_divide (Num (687194767 / 68719476736)) (Num 10000)
             = Num (147573952512367 / 147573952589676412928)"
    by (simp add: js_eval cong: let_weak_cong)
  have d: "number_toString (Num (147573952512367 / 147573952589676412928))
             = js ''9.99999999476131e-7''"
    by (simp add: js_eval cong: let_weak_cong)
  have e: "parseInt (js ''9.99999999476131e-7'') = Num 9"
    by (simp add: js_eval cong: let_weak_cong)
  have f: "number_multiply (Num 9) BONUS_AMOUNT = Num 90"
    by (simp add: js_eval cong: let_weak_cong)
  have g: "number_lessThan (Num 100000) (Num (6871948360794767 / 68719476736))"
    by (simp add: js_eval)
  have p: "drop 1 (POUND @ js ''100000.01'') = js ''100000.01''"
    by (simp add: POUND_def)
  have 1: "bonusCalculator (Str (POUND @ js ''100000.01'')) (Num 100000) (Num 10000) = Inr (Num 90)"
    unfolding bonusCalculator_Str p a b c d e f using g by simp
  have 2: "number_toString
        (number_divide (number_subtract (parseFloat (js ''100000.01'')) (Num 100000)) (Num 10000))
       = js ''9.99999999476131e-7''"
    unfolding a b c d ..
  have h: "convertCase CURRENCY_LOOKUP (map Str [js ''Bob'', js ''18'', js ''$125000.01''])
             = Inr (map Str [js ''Bob'', js ''18'', POUND @ js ''100000.01''])"
    by (simp add: js_eval cong: let_weak_cong)
  have t: "truthy (Some BONUS_TYPE_1)" "Some BONUS_TYPE_1 \<noteq> Some BONUS_TYPE_2"
    by (simp_all add: truthy_def BONUS_TYPE_1_def BONUS_TYPE_2_def isZero_def)
  have n: "number_toString BASE_COMMISSION = js ''125''" "number_toString (Num 90) = js ''90''"
    by (simp_all add: js_eval cong: let_weak_cong)
  have k: "commissionRow (Some BONUS_TYPE_1)
             (Some (map Str [js ''Bob'', js ''18'', POUND @ js ''100000.01'']))
           = Inr (map Str [js ''Bob'', js ''18'', POUND @ js ''125'', POUND @ js ''90''])"
    using 1 t n
    by (simp add: commissionRow_def THRESHOLD_AMOUNT_1_def TARGET_AMOUNT_1_def)
  have 3: "getCommissionData
        [map Str [js ''BrokerName'', js ''CaseId'', js ''CaseValue''],
         map Str [js ''Bob'', js ''18'', js ''$125000.01'']] (Some BONUS_TYPE_1)
       = Inr [map Str [js ''BrokerName'', js ''CaseId'', js ''BaseCommission'', js ''BonusCommission''],
              map Str [js ''Bob'', js ''18'', POUND @ js ''125'', POUND @ js ''90'']]"
    using h k by (simp add: getCommissionData_def convertCasesToGBP_def)
  from 1 2 3 show ?thesis by blast
qed

section \<open>The header of the per-case report\<close>

text \<open>
  Claim C6, at a report requested with no bonus structure. The data row has the three
  columns BrokerName, CaseId, BaseCommission, as the claim says, but the header row still
  lists four: the header is built unconditionally with \<open>BonusCommission\<close>.
\<close>

theorem header_keeps_bonus_column:
  "getCommissionData
     [map Str [js ''BrokerName'', js ''CaseId'', js ''CaseValue''],
      map Str [js ''Alice'', js ''17'', POUND @ js ''310000.00'']] None
   = Inr [map Str [js ''BrokerName'', js ''CaseId'', js ''BaseCommission'', js ''BonusCommission''],
          map Str [js ''Alice'', js ''17'', POUND @ js ''125'']]"
  by (simp add: js_eval cong: let_weak_cong)

section \<open>The summary on a report without a bonus column\<close>

lemma forEachE_error:
  assumes "x \<in> set xs" and "\<forall>s. f s x = Inl TypeError"
    and "\<forall>s y e. f s y = Inl e \<longrightarrow> e = TypeError"
  shows "forEachE f s xs = Inl TypeError"
  using assms(1)
proof (induction xs arbitrary: s)
  case Nil
  then show ?case by simp
next
  case (Cons y ys)
  show ?case
  proof (cases "f s y")
    case (Inl e)
    with assms(3) show ?thesis by auto
  next
    case (Inr s')
    with Cons assms(2) show ?thesis by auto
  qed
qed

lemma summaryStep_short_row: "length r < 4 \<Longrightarrow> summaryStep obj r = Inl TypeError"
  by (simp add: summaryStep_def callHasOwnProperty_def element_def Let_def
      split: jsval.split sum.split)

lemma summaryStep_error: "summaryStep obj r = Inl e \<Longrightarrow> e = TypeError"
  by (simp add: summaryStep_def callHasOwnProperty_def Let_def
      split: jsval.splits sum.splits if_splits)

text \<open>
  Claim C8, as the code has it: a report row with fewer than four fields stops the summary
  generator with a TypeError, thrown when \<open>substring\<close> is called on the missing
  BonusCommission (or BaseCommission). No summary is returned.
\<close>

theorem summary_throws_on_short_row:
  assumes "r \<in> set (drop 1 brokerCases)" and "length r < 4"
  shows "getCommissionSummaryData brokerCases = Inl TypeError"
proof -
  have "forEachE summaryStep [] (drop 1 brokerCases) = Inl TypeError"
    using assms(1)
  proof (rule forEachE_error)
    show "\<forall>s. summaryStep s r = Inl TypeError"
      using assms(2) by (simp add: summaryStep_short_row)
    show "\<forall>s y e. summaryStep s y = Inl e \<longrightarrow> e = TypeError"
      using summaryStep_error by blast
  qed
  then show ?thesis by (simp add: getCommissionSummaryData_def)
qed

theorem summary_throws_on_short_row_witness:
  "getCommissionSummaryData
     [map Str [js ''BrokerName'', js ''CaseId'', js ''BaseCommission''],
      map Str [js ''Alice'', js ''17'', POUND @ js ''125'', POUND @ js ''10''],
      map Str [js ''Bob'', js ''18'', POUND @ js ''125'']] = Inl TypeError"
  by (rule summary_throws_on_short_row [of "map Str [js ''Bob'', js ''18'', POUND @ js ''125'']"])
    simp_all

text \<open>
  The report \<open>getCommissionData\<close> returns when no bonus structure is selected, given to the
  summary generator: it throws.
\<close>

theorem summary_of_report_without_bonus_throws:
  "getCommissionSummaryData
     [map Str [js ''BrokerName'', js ''CaseId'', js ''BaseCommission'', js ''BonusCommission''],
      map Str [js ''Alice'', js ''17'', POUND @ js ''125'']] = Inl TypeError"
  by (simp add: getCommissionSummaryData_def summaryStep_def callHasOwnProperty_def element_def
      Let_def)

section \<open>The per-broker summary\<close>

lemma set_brokersFirstSeen [simp]: "set (brokersFirstSeen xs) = set xs"
  by (induction xs) auto

lemma distinct_brokersFirstSeen [simp]: "distinct (brokersFirstSeen xs)"
  by (induction xs) auto

lemma brokersFirstSeen_snoc:
  "brokersFirstSeen (xs @ [x]) =
     (if x \<in> set xs then brokersFirstSeen xs else brokersFirstSeen xs @ [x])"
  by (induction xs) auto

lemma forEachE_snoc:
  "forEachE f s (xs @ [x]) = (case forEachE f s xs of Inl e \<Rightarrow> Inl e | Inr s' \<Rightarrow> f s' x)"
  by (induction xs arbitrary: s) (auto split: sum.splits)

lemma brokerTotal_snoc:
  "brokerTotal b (rows @ [r]) =
     (if brokerName r = b
      then number_add
             (number_add (brokerTotal b rows) (parseFloat (drop 1 (elementString (element r 2)))))
             (parseFloat (drop 1 (elementString (element r 3))))
      else brokerTotal b rows)"
  by (simp add: brokerTotal_def)

lemma brokerTotal_unseen: "b \<notin> set (map brokerName rows) \<Longrightarrow> brokerTotal b rows = Num 0"
proof -
  assume "b \<notin> set (map brokerName rows)"
  then have "\<forall>r \<in> set rows. brokerName r \<noteq> b"
    by (metis image_eqI set_map)
  then have "filter (\<lambda>r. brokerName r = b) rows = []"
    by (simp add: filter_empty_conv)
  then show ?thesis by (simp add: brokerTotal_def)
qed

lemma reportRow_iff:
  "reportRow r \<longleftrightarrow>
     (\<exists>b base bonus. element r 0 = Str b \<and> element r 2 = Str base \<and> element r 3 = Str bonus
        \<and> b \<noteq> js ''__proto__'' \<and> b \<noteq> js ''hasOwnProperty'')"
  by (auto simp: reportRow_def split: jsval.splits)

lemma summaryStep_reportRow:
  assumes "element r 0 = Str b" "element r 2 = Str base" "element r 3 = Str bonus"
    and "b \<noteq> js ''__proto__''" and "map_of obj (js ''hasOwnProperty'') = None"
  shows "summaryStep obj r =
     Inr (AList.update b
            (number_add
               (number_add (case map_of obj b of None \<Rightarrow> Num 0 | Some t \<Rightarrow> t)
                  (parseFloat (drop 1 base)))
               (parseFloat (drop 1 bonus))) obj)"
  using assms
  by (auto simp: summaryStep_def Let_def hasOwnProperty_def callHasOwnProperty_def
      getProperty_def setProperty_def toPropertyKey_def array_join_def elementString_def
      toNumber_def)

lemma summary_invariant:
  assumes "\<forall>r \<in> set rows. reportRow r"
  shows "\<exists>obj. forEachE summaryStep [] rows = Inr obj
           \<and> map fst obj = brokersFirstSeen (map brokerName rows)
           \<and> (\<forall>b. map_of obj b =
                 (if b \<in> set (map brokerName rows) then Some (brokerTotal b rows) else None))"
  using assms
proof (induction rows rule: rev_induct)
  case Nil
  show ?case by simp
next
  case (snoc r rows)
  then obtain obj where
    run: "forEachE summaryStep [] rows = Inr obj"
    and keys: "map fst obj = brokersFirstSeen (map brokerName rows)"
    and vals: "\<And>b. map_of obj b =
                 (if b \<in> set (map brokerName rows) then Some (brokerTotal b rows) else None)"
    by auto
  from snoc.prems obtain b base bonus where
    r: "element r 0 = Str b" "element r 2 = Str base" "element r 3 = Str bonus"
    and b: "b \<noteq> js ''__proto__''"
    by (auto simp: reportRow_iff)
  have name: "brokerName r = b"
    using r(1) by (simp add: brokerName_def elementString_def)
  have "js ''hasOwnProperty'' \<notin> set (map brokerName rows)"
  proof
    assume "js ''hasOwnProperty'' \<in> set (map brokerName rows)"
    then obtain r' where "r' \<in> set rows" "brokerName r' = js ''hasOwnProperty''" by auto
    with snoc.prems show False
      by (auto simp: reportRow_iff brokerName_def elementString_def)
  qed
  then have own: "map_of obj (js ''hasOwnProperty'') = None"
    using vals [of "js ''hasOwnProperty''"] by simp
  have cur: "(case map_of obj b of None \<Rightarrow> Num 0 | Some t \<Rightarrow> t) = brokerTotal b rows"
    using vals [of b] by (simp add: brokerTotal_unseen)
  let ?v = "number_add (number_add (brokerTotal b rows) (parseFloat (drop 1 base)))
              (parseFloat (drop 1 bonus))"
  let ?obj = "AList.update b ?v obj"
  have step: "summaryStep obj r = Inr ?obj"
    using summaryStep_reportRow [OF r b own] cur by simp
  have total: "brokerTotal b (rows @ [r]) = ?v"
    using r name by (simp add: brokerTotal_snoc elementString_def)
  have seen: "b \<in> set (map fst obj) \<longleftrightarrow> b \<in> set (map brokerName rows)"
    using keys by simp
  have 1: "forEachE summaryStep [] (rows @ [r]) = Inr ?obj"
    by (simp add: forEachE_snoc run step)
  have 2: "map fst ?obj = brokersFirstSeen (map brokerName (rows @ [r]))"
    using keys seen name by (simp add: AList.update_keys brokersFirstSeen_snoc)
  have 3: "map_of ?obj c =
             (if c \<in> set (map brokerName (rows @ [r]))
              then Some (brokerTotal c (rows @ [r])) else None)" for c
  proof (cases "c = b")
    case True
    with total name show ?thesis by (simp add: AList.update_conv')
  next
    case False
    with name have "brokerTotal c (rows @ [r]) = brokerTotal c rows"
      by (simp add: brokerTotal_snoc)
    with False name vals [of c] show ?thesis by (simp add: AList.update_conv')
  qed
  from 1 2 3 show ?case by blast
qed

lemma ownKeys_no_index:
  assumes "\<forall>k \<in> set (map fst obj). \<not> isArrayIndex k"
  shows "ownKeys obj = map fst obj"
proof -
  from assms have "filter isArrayIndex (map fst obj) = []"
    by (auto simp: filter_empty_conv)
  moreover from assms have "filter (\<lambda>k. \<not> isArrayIndex k) (map fst obj) = map fst obj"
    by (auto simp: filter_id_conv)
  ultimately show ?thesis by (simp add: ownKeys_def)
qed

lemma summary_rows:
  assumes "\<forall>r \<in> set (drop 1 brokerCases). reportRow r"
  shows "getCommissionSummaryData brokerCases =
     Inr (map Str [js ''BrokerName'', js ''TotalCommission'']
          # map (\<lambda>b. [Str b, Str (POUND @ number_toString (brokerTotal b (drop 1 brokerCases)))])
              (sort_key (radixValue 10)
                 (filter isArrayIndex (brokersFirstSeen (map brokerName (drop 1 brokerCases))))
               @ filter (\<lambda>k. \<not> isArrayIndex k)
                   (brokersFirstSeen (map brokerName (drop 1 brokerCases)))))"
proof -
  from summary_invariant [OF assms] obtain obj where
    run: "forEachE summaryStep [] (drop 1 brokerCases) = Inr obj"
    and keys: "map fst obj = brokersFirstSeen (map brokerName (drop 1 brokerCases))"
    and vals: "\<And>b. map_of obj b =
                 (if b \<in> set (map brokerName (drop 1 brokerCases))
                  then Some (brokerTotal b (drop 1 brokerCases)) else None)"
    by auto
  have "templateNumber (getProperty obj key)
          = number_toString (brokerTotal key (drop 1 brokerCases))"
    if "key \<in> set (ownKeys obj)" for key
  proof -
    from that have "key \<in> set (map fst obj)" by (auto simp: ownKeys_def)
    with keys have "key \<in> set (map brokerName (drop 1 brokerCases))" by simp
    with vals [of key] show ?thesis by (simp add: templateNumber_def getProperty_def)
  qed
  then have "map (\<lambda>key. [Str key, Str (POUND @ templateNumber (getProperty obj key))]) (ownKeys obj)
     = map (\<lambda>b. [Str b, Str (POUND @ number_toString (brokerTotal b (drop 1 brokerCases)))])
         (ownKeys obj)"
    by simp
  with run keys show ?thesis
    by (simp add: getCommissionSummaryData_def ownKeys_def)
qed

lemma summary_alice:
  "getCommissionSummaryData
     [map Str [js ''BrokerName'', js ''CaseId'', js ''BaseCommission'', js ''BonusCommission''],
      map Str [js ''Alice'', js ''17'', POUND @ js ''125'', POUND @ js ''0''],
      map Str [js ''Alice'', js ''18'', POUND @ js ''125'', POUND @ js ''10'']]
   = Inr [map Str [js ''BrokerName'', js ''TotalCommission''],
          map Str [js ''Alice'', POUND @ js ''260'']]"
  by (simp add: js_eval cong: let_weak_cong)

text \<open>
  Claim C5, as the code has it. The rows are those of a 4-column report: BrokerName,
  BaseCommission and BonusCommission are present, and no broker is called \<open>__proto__\<close>.
  The summary has one row per distinct broker name. Names that are array indices (canonical
  decimal numerals such as \<open>7\<close>) come first, in ascending numeric order, and the other
  names follow in first-seen order: this is the order of \<open>Object.keys\<close>. So when no name is
  an array index the rows are in first-seen order. The total of a broker is accumulated row
  by row in double arithmetic, \<open>(total + baseCommission) + bonusCommission\<close>. Two rows for
  Alice totalling \<open>\<pounds>125\<close> and \<open>\<pounds>135\<close> give the one row \<open>Alice,\<pounds>260\<close>. When all amounts
  of the report are whole and not negative and their sum is below \<open>2\<^sup>5\<^sup>3\<close>, no addition
  rounds, and the total of a broker is exactly the sum of BaseCommission plus
  BonusCommission over the rows of that broker.
\<close>

theorem summary_one_row_per_broker:
  assumes "\<forall>r \<in> set (drop 1 brokerCases). reportRow r"
  shows "getCommissionSummaryData brokerCases =
     Inr (map Str [js ''BrokerName'', js ''TotalCommission'']
          # map (\<lambda>b. [Str b, Str (POUND @ number_toString (brokerTotal b (drop 1 brokerCases)))])
              (sort_key (radixValue 10)
                 (filter isArrayIndex (brokersFirstSeen (map brokerName (drop 1 brokerCases))))
               @ filter (\<lambda>k. \<not> isArrayIndex k)
                   (brokersFirstSeen (map brokerName (drop 1 brokerCases)))))
   \<and> ((\<forall>r \<in> set (drop 1 brokerCases). \<not> isArrayIndex (brokerName r)) \<longrightarrow>
        getCommissionSummaryData brokerCases =
          Inr (map Str [js ''BrokerName'', js ''TotalCommission'']
               # map (\<lambda>b. [Str b,
                            Str (POUND @ number_toString (brokerTotal b (drop 1 brokerCases)))])
                   (brokersFirstSeen (map brokerName (drop 1 brokerCases)))))
   \<and> distinct (brokersFirstSeen (map brokerName (drop 1 brokerCases)))
   \<and> set (brokersFirstSeen (map brokerName (drop 1 brokerCases)))
       = set (map brokerName (drop 1 brokerCases))
   \<and> getCommissionSummaryData
       [map Str [js ''BrokerName'', js ''CaseId'', js ''BaseCommission'', js ''BonusCommission''],
        map Str [js ''Alice'', js ''17'', POUND @ js ''125'', POUND @ js ''0''],
        map Str [js ''Alice'', js ''18'', POUND @ js ''125'', POUND @ js ''10'']]
       = Inr [map Str [js ''BrokerName'', js ''TotalCommission''],
              map Str [js ''Alice'', POUND @ js ''260'']]
   \<and> ((\<forall>r \<in> set (drop 1 brokerCases).
          wholeAmount (element r 2) \<and> wholeAmount (element r 3)) \<longrightarrow>
       sum_list (map rowCommission (drop 1 brokerCases)) < 2 ^ 53 \<longrightarrow>
       (\<forall>b. brokerTotal b (drop 1 brokerCases) =
          Num (of_int (sum_list (map rowCommission
                 (filter (\<lambda>r. brokerName r = b) (drop 1 brokerCases)))))))"
proof -
  let ?names = "brokersFirstSeen (map brokerName (drop 1 brokerCases))"
  note general = summary_rows [OF assms]
  have exact: "(\<forall>r \<in> set (drop 1 brokerCases).
          wholeAmount (element r 2) \<and> wholeAmount (element r 3)) \<longrightarrow>
       sum_list (map rowCommission (drop 1 brokerCases)) < 2 ^ 53 \<longrightarrow>
       (\<forall>b. brokerTotal b (drop 1 brokerCases) =
          Num (of_int (sum_list (map rowCommission
                 (filter (\<lambda>r. brokerName r = b) (drop 1 brokerCases))))))"
    using brokerTotal_whole [of "drop 1 brokerCases"] by blast
  have "sort_key (radixValue 10) (filter isArrayIndex ?names)
          @ filter (\<lambda>k. \<not> isArrayIndex k) ?names = ?names"
    if "\<forall>r \<in> set (drop 1 brokerCases). \<not> isArrayIndex (brokerName r)"
  proof -
    from that have "\<forall>k \<in> set ?names. \<not> isArrayIndex k" by simp
    then have "filter isArrayIndex ?names = []" "filter (\<lambda>k. \<not> isArrayIndex k) ?names = ?names"
      by (simp_all add: filter_empty_conv filter_id_conv)
    then show ?thesis by simp
  qed
  with general have "(\<forall>r \<in> set (drop 1 brokerCases). \<not> isArrayIndex (brokerName r)) \<longrightarrow>
        getCommissionSummaryData brokerCases =
          Inr (map Str [js ''BrokerName'', js ''TotalCommission'']
               # map (\<lambda>b. [Str b,
                            Str (POUND @ number_toString (brokerTotal b (drop 1 brokerCases)))])
                   ?names)"
    by simp
  with general summary_alice have "getCommissionSummaryData brokerCases =
     Inr (map Str [js ''BrokerName'', js ''TotalCommission'']
          # map (\<lambda>b. [Str b, Str (POUND @ number_toString (brokerTotal b (drop 1 brokerCases)))])
              (sort_key (radixValue 10)
                 (filter isArrayIndex (brokersFirstSeen (map brokerName (drop 1 brokerCases))))
               @ filter (\<lambda>k. \<not> isArrayIndex k)
                   (brokersFirstSeen (map brokerName (drop 1 brokerCases)))))
   \<and> ((\<forall>r \<in> set (drop 1 brokerCases). \<not> isArrayIndex (brokerName r)) \<longrightarrow>
        getCommissionSummaryData brokerCases =
          Inr (map Str [js ''BrokerName'', js ''TotalCommission'']
               # map (\<lambda>b. [Str b,
                            Str (POUND @ number_toString (brokerTotal b (drop 1 brokerCases)))])
                   (brokersFirstSeen (map brokerName (drop 1 brokerCases)))))
   \<and> distinct (brokersFirstSeen (map brokerName (drop 1 brokerCases)))
   \<and> set (brokersFirstSeen (map brokerName (drop 1 brokerCases)))
       = set (map brokerName (drop 1 brokerCases))
   \<and> getCommissionSummaryData
       [map Str [js ''BrokerName'', js ''CaseId'', js ''BaseCommission'', js ''BonusCommission''],
        map Str [js ''Alice'', js ''17'', POUND @ js ''125'', POUND @ js ''0''],
        map Str [js ''Alice'', js ''18'', POUND @ js ''125'', POUND @ js ''10'']]
       = Inr [map Str [js ''BrokerName'', js ''TotalCommission''],
              map Str [js ''Alice'', POUND @ js ''260'']]"
    by simp
  with exact show ?thesis
    by - (elim conjE, intro conjI, assumption+)
qed

theorem summary_one_row_per_broker_witness:
  "getCommissionSummaryData
     [map Str [js ''BrokerName'', js ''CaseId'', js ''BaseCommission'', js ''BonusCommission''],
      map Str [js ''Alice'', js ''17'', POUND @ js ''125'', POUND @ js ''0''],
      map Str [js ''Bob'', js ''18'', POUND @ js ''125'', POUND @ js ''90''],
      map Str [js ''Alice'', js ''19'', POUND @ js ''125'', POUND @ js ''10'']]
   = Inr [map Str [js ''BrokerName'', js ''TotalCommission''],
          map Str [js ''Alice'', POUND @ js ''260''],
          map Str [js ''Bob'', POUND @ js ''215'']]
   \<and> brokerTotal (js ''Alice'')
       [map Str [js ''Alice'', js ''17'', POUND @ js ''125'', POUND @ js ''0''],
        map Str [js ''Bob'', js ''18'', POUND @ js ''125'', POUND @ js ''90''],
        map Str [js ''Alice'', js ''19'', POUND @ js ''125'', POUND @ js ''10'']]
       = Num (125 + 0 + (125 + 10))"
proof -
  let ?report = "[map Str [js ''BrokerName'', js ''CaseId'', js ''BaseCommission'', js ''BonusCommission''],
      map Str [js ''Alice'', js ''17'', POUND @ js ''125'', POUND @ js ''0''],
      map Str [js ''Bob'', js ''18'', POUND @ js ''125'', POUND @ js ''90''],
      map Str [js ''Alice'', js ''19'', POUND @ js ''125'', POUND @ js ''10'']]"
  let ?rows = "[[Str (js ''Alice''), Str (js ''17''), Str (POUND @ js ''125''), Str (POUND @ js ''0'')],
      [Str (js ''Bob''), Str (js ''18''), Str (POUND @ js ''125''), Str (POUND @ js ''90'')],
      [Str (js ''Alice''), Str (js ''19''), Str (POUND @ js ''125''), Str (POUND @ js ''10'')]]"
  have tail: "drop 1 ?report = ?rows" by simp
  have rows: "\<forall>r \<in> set (drop 1 ?report). reportRow r"
    by (simp add: reportRow_def js_def)
  have names: "\<forall>r \<in> set (drop 1 ?report). \<not> isArrayIndex (brokerName r)"
    by (simp add: brokerName_def elementString_def isArrayIndex_def isDigit_def js_def)
  have seen: "brokersFirstSeen (map brokerName ?rows) = [js ''Alice'', js ''Bob'']"
    by (simp add: brokerName_def elementString_def js_def)
  have alice: "number_toString (brokerTotal (js ''Alice'') ?rows) = js ''260''"
    by (simp add: brokerTotal_def brokerName_def js_eval cong: let_weak_cong)
  have bob: "number_toString (brokerTotal (js ''Bob'') ?rows) = js ''215''"
    by (simp add: brokerTotal_def brokerName_def js_eval cong: let_weak_cong)
  have amounts: "amountOf (Str (POUND @ js ''125'')) = 125"
    "amountOf (Str (POUND @ js ''0'')) = 0"
    "amountOf (Str (POUND @ js ''90'')) = 90"
    "amountOf (Str (POUND @ js ''10'')) = 10"
    by (simp_all add: amountOf_def js_eval cong: let_weak_cong)
  have whole: "wholeAmount (Str (POUND @ js ''125''))"
    "wholeAmount (Str (POUND @ js ''0''))"
    "wholeAmount (Str (POUND @ js ''90''))"
    "wholeAmount (Str (POUND @ js ''10''))"
    by (simp_all add: wholeAmount_def js_eval cong: let_weak_cong)
  have wholes: "\<forall>r \<in> set (drop 1 ?report).
      wholeAmount (element r 2) \<and> wholeAmount (element r 3)"
    by (simp add: whole)
  have bound: "sum_list (map rowCommission (drop 1 ?report)) < 2 ^ 53"
    by (simp add: rowCommission_def amounts)
  have mine: "filter (\<lambda>r. brokerName r = js ''Alice'') ?rows
      = [[Str (js ''Alice''), Str (js ''17''), Str (POUND @ js ''125''), Str (POUND @ js ''0'')],
         [Str (js ''Alice''), Str (js ''19''), Str (POUND @ js ''125''), Str (POUND @ js ''10'')]]"
    by (simp add: brokerName_def elementString_def js_def)
  note inst = summary_one_row_per_broker [OF rows]
  from inst names
  have "getCommissionSummaryData ?report =
          Inr (map Str [js ''BrokerName'', js ''TotalCommission'']
               # map (\<lambda>b. [Str b, Str (POUND @ number_toString (brokerTotal b (drop 1 ?report)))])
                   (brokersFirstSeen (map brokerName (drop 1 ?report))))"
    by blast
  then have "getCommissionSummaryData ?report =
          Inr (map Str [js ''BrokerName'', js ''TotalCommission'']
               # map (\<lambda>b. [Str b, Str (POUND @ number_toString (brokerTotal b ?rows))])
                   [js ''Alice'', js ''Bob''])"
    unfolding tail seen .
  then have 1: "getCommissionSummaryData ?report
     = Inr [map Str [js ''BrokerName'', js ''TotalCommission''],
            map Str [js ''Alice'', POUND @ js ''260''],
            map Str [js ''Bob'', POUND @ js ''215'']]"
    by (simp add: alice bob)
  from inst wholes bound
  have "brokerTotal (js ''Alice'') (drop 1 ?report) =
          Num (of_int (sum_list (map rowCommission
                 (filter (\<lambda>r. brokerName r = js ''Alice'') (drop 1 ?report)))))"
    by blast
  then have "brokerTotal (js ''Alice'') ?rows =
          Num (of_int (sum_list (map rowCommission
                 (filter (\<lambda>r. brokerName r = js ''Alice'') ?rows))))"
    unfolding tail .
  then have 2: "brokerTotal (js ''Alice'') ?rows = Num (125 + 0 + (125 + 10))"
    unfolding mine by (simp add: rowCommission_def amounts)
  from 1 2 show ?thesis by simp
qed

text \<open>
  The brokers \<open>2\<close> and \<open>1\<close> are first seen in this order, and the summary lists \<open>1\<close>
  before \<open>2\<close>.
\<close>

theorem summary_order_counterexample:
  "getCommissionSummaryData
     [map Str [js ''BrokerName'', js ''CaseId'', js ''BaseCommission'', js ''BonusCommission''],
      map Str [js ''2'', js ''17'', POUND @ js ''125'', POUND @ js ''0''],
      map Str [js ''1'', js ''18'', POUND @ js ''125'', POUND @ js ''10'']]
   = Inr [map Str [js ''BrokerName'', js ''TotalCommission''],
          map Str [js ''1'', POUND @ js ''135''],
          map Str [js ''2'', POUND @ js ''125'']]
   \<and> brokersFirstSeen (map brokerName
        [map Str [js ''2'', js ''17'', POUND @ js ''125'', POUND @ js ''0''],
         map Str [js ''1'', js ''18'', POUND @ js ''125'', POUND @ js ''10'']])
       = [js ''2'', js ''1'']"
proof -
  have "getCommissionSummaryData
     [map Str [js ''BrokerName'', js ''CaseId'', js ''BaseCommission'', js ''BonusCommission''],
      map Str [js ''2'', js ''17'', POUND @ js ''125'', POUND @ js ''0''],
      map Str [js ''1'', js ''18'', POUND @ js ''125'', POUND @ js ''10'']]
   = Inr [map Str [js ''BrokerName'', js ''TotalCommission''],
          map Str [js ''1'', POUND @ js ''135''],
          map Str [js ''2'', POUND @ js ''125'']]"
    by (simp add: js_eval cong: let_weak_cong)
  moreover have "brokersFirstSeen (map brokerName
        [map Str [js ''2'', js ''17'', POUND @ js ''125'', POUND @ js ''0''],
         map Str [js ''1'', js ''18'', POUND @ js ''125'', POUND @ js ''10'']])
       = [js ''2'', js ''1'']"
    by (simp add: brokerName_def elementString_def js_def)
  ultimately show ?thesis by blast
qed

end
